theory Spec2Isabelle
  imports Complex_Main
begin

section \<open>Tensors and the numeric operations the notebook calls\<close>

text \<open>
  The notebook \<^verbatim>\<open>Notebook-Readme.ipynb\<close> trains a two-layer ReLU network in several
  styles. Its tensors are dense arrays of floating-point numbers. For the gradients and
  for the bookkeeping of the autograd loop an entry is a \<^typ>\<open>real\<close> here (exact arithmetic,
  no rounding, no NaN), and a tensor is its shape together with its entries in row-major
  order; a tensor of shape \<open>[]\<close> is a scalar holding one entry. The values that the loop with
  the hand-written backward pass computes and prints are floating-point numbers, with
  overflow and NaN; they are modelled in the sections on floating-point arithmetic below.
\<close>

datatype error =
    ShapeMismatch     \<comment> \<open>operands of incompatible dimensions\<close>
  | NotScalar         \<comment> \<open>\<^verbatim>\<open>item()\<close> or \<^verbatim>\<open>backward()\<close> on a tensor that is not a scalar\<close>
  | NoGraph           \<comment> \<open>\<^verbatim>\<open>backward()\<close> on a tensor that does not require grad\<close>
  | GradUnset         \<comment> \<open>\<^verbatim>\<open>w.grad\<close> is \<^verbatim>\<open>None\<close> where a tensor is needed\<close>
  | InplaceOnLeaf     \<comment> \<open>in-place update of a tracked leaf while recording is on\<close>
  | BadArguments      \<comment> \<open>an operator applied to the wrong number of tensors\<close>
  | BadIndex          \<comment> \<open>a tensor id that names no tensor\<close>

definition bindE :: "error + 'a \<Rightarrow> ('a \<Rightarrow> error + 'b) \<Rightarrow> error + 'b" where
  "bindE m f = (case m of Inl e \<Rightarrow> Inl e | Inr v \<Rightarrow> f v)"

record tensor =
  shape :: "nat list"
  elems :: "real list"

definition numel :: "nat list \<Rightarrow> nat" where
  "numel sh = prod_list sh"

definition wf_tensor :: "tensor \<Rightarrow> bool" where
  "wf_tensor a = (length (elems a) = numel (shape a))"

text \<open>\<^verbatim>\<open>a.mm(b)\<close> (numpy: \<^verbatim>\<open>a.dot(b)\<close>): the matrix product of an \<open>n \<times> k\<close> and a
  \<open>k \<times> m\<close> matrix; any other pair of shapes is an error.\<close>

definition dot_rc :: "nat \<Rightarrow> nat \<Rightarrow> real list \<Rightarrow> real list \<Rightarrow> nat \<Rightarrow> nat \<Rightarrow> real" where
  "dot_rc k m a b i j = (\<Sum>l\<leftarrow>[0..<k]. a ! (i * k + l) * b ! (l * m + j))"

definition mm_elems :: "nat \<Rightarrow> nat \<Rightarrow> nat \<Rightarrow> real list \<Rightarrow> real list \<Rightarrow> real list" where
  "mm_elems n k m a b = concat (map (\<lambda>i. map (\<lambda>j. dot_rc k m a b i j) [0..<m]) [0..<n])"

definition mm :: "tensor \<Rightarrow> tensor \<Rightarrow> error + tensor" where
  "mm a b =
     (case shape a of
        [n, k] \<Rightarrow>
          (case shape b of
             [k', m] \<Rightarrow>
               if k = k'
               then Inr \<lparr>shape = [n, m], elems = mm_elems n k m (elems a) (elems b)\<rparr>
               else Inl ShapeMismatch
           | _ \<Rightarrow> Inl ShapeMismatch)
      | _ \<Rightarrow> Inl ShapeMismatch)"

text \<open>\<^verbatim>\<open>a.t()\<close> (numpy: \<^verbatim>\<open>a.T\<close>): the transpose of a matrix.\<close>

definition t_elems :: "nat \<Rightarrow> nat \<Rightarrow> real list \<Rightarrow> real list" where
  "t_elems n m a = concat (map (\<lambda>j. map (\<lambda>i. a ! (i * m + j)) [0..<n]) [0..<m])"

definition t_mat :: "tensor \<Rightarrow> error + tensor" where
  "t_mat a =
     (case shape a of
        [n, m] \<Rightarrow> Inr \<lparr>shape = [m, n], elems = t_elems n m (elems a)\<rparr>
      | _ \<Rightarrow> Inl ShapeMismatch)"

text \<open>\<^verbatim>\<open>a.clamp(min=c)\<close> (numpy: \<^verbatim>\<open>np.maximum(a, c)\<close>), entry by entry.\<close>

definition clamp_min :: "real \<Rightarrow> tensor \<Rightarrow> tensor" where
  "clamp_min c a = a\<lparr>elems := map (\<lambda>v. max v c) (elems a)\<rparr>"

text \<open>\<^verbatim>\<open>a - b\<close> for two tensors of one shape, the only case in which the exact-arithmetic
  development uses it; here unequal shapes are reported as a shape mismatch. The
  subtraction with broadcasting, as the scripts compute \<^verbatim>\<open>y_pred - y\<close>, is \<open>fl_sub_t\<close> below.\<close>

definition sub_t :: "tensor \<Rightarrow> tensor \<Rightarrow> error + tensor" where
  "sub_t a b =
     (if shape a = shape b
      then Inr \<lparr>shape = shape a, elems = map2 (-) (elems a) (elems b)\<rparr>
      else Inl ShapeMismatch)"

text \<open>\<^verbatim>\<open>a.pow(p)\<close> (numpy: \<^verbatim>\<open>np.square(a)\<close> for \<open>p = 2\<close>), entry by entry.\<close>

definition pow_t :: "nat \<Rightarrow> tensor \<Rightarrow> tensor" where
  "pow_t p a = a\<lparr>elems := map (\<lambda>v. v ^ p) (elems a)\<rparr>"

text \<open>\<^verbatim>\<open>a.sum()\<close>: the scalar tensor holding the sum of all entries.\<close>

definition sum_t :: "tensor \<Rightarrow> tensor" where
  "sum_t a = \<lparr>shape = [], elems = [sum_list (elems a)]\<rparr>"

text \<open>\<^verbatim>\<open>a.item()\<close>: the number held by a one-entry tensor.\<close>

definition item :: "tensor \<Rightarrow> error + real" where
  "item a = (case elems a of [v] \<Rightarrow> Inr v | _ \<Rightarrow> Inl NotScalar)"

text \<open>\<^verbatim>\<open>c * a\<close> for a Python number \<open>c\<close>.\<close>

definition smul :: "real \<Rightarrow> tensor \<Rightarrow> tensor" where
  "smul c a = a\<lparr>elems := map (\<lambda>v. c * v) (elems a)\<rparr>"

text \<open>\<^verbatim>\<open>a.clone()\<close> (numpy: \<^verbatim>\<open>a.copy()\<close>): a fresh tensor with the same contents. Values
  are immutable here, so the copy is the value itself.\<close>

definition clone :: "tensor \<Rightarrow> tensor" where
  "clone a = a"

text \<open>\<^verbatim>\<open>g[h < 0] = 0\<close>: the entries of \<open>g\<close> at the positions where \<open>h\<close> is strictly
  negative are overwritten with zero; the mask must have the shape of \<open>g\<close>.\<close>

definition setitem_lt0 :: "tensor \<Rightarrow> tensor \<Rightarrow> error + tensor" where
  "setitem_lt0 g h =
     (if shape g = shape h
      then Inr (g\<lparr>elems := map2 (\<lambda>gv hv. if hv < 0 then 0 else gv) (elems g) (elems h)\<rparr>)
      else Inl ShapeMismatch)"

text \<open>\<^verbatim>\<open>a.zero_()\<close>: every entry becomes zero.\<close>

definition zero_t :: "tensor \<Rightarrow> tensor" where
  "zero_t a = a\<lparr>elems := map (\<lambda>_. 0) (elems a)\<rparr>"

section \<open>The two-layer network with a hand-written backward pass\<close>

text \<open>
  \<^verbatim>\<open>two_layer_net_tensor.py\<close> (and, with numpy's names for the same operations,
  \<^verbatim>\<open>two_layer_net_numpy.py\<close>): the forward pass, the loss and the hand-written gradients
  in exact arithmetic. The sizes and the step count of the script:
\<close>

definition N :: nat where "N = 64"
definition D_in :: nat where "D_in = 1000"
definition H :: nat where "H = 100"
definition D_out :: nat where "D_out = 10"
definition learning_rate :: real where "learning_rate = 1 / 1000000"
definition n_steps :: nat where "n_steps = 500"






section \<open>Floating-point arithmetic\<close>

text \<open>
  The arrays of \<^verbatim>\<open>two_layer_net_numpy.py\<close> hold IEEE 754 double-precision numbers and the
  tensors of \<^verbatim>\<open>two_layer_net_tensor.py\<close> single-precision numbers. A floating-point
  value is a finite number, one of the two infinities, or NaN. The two zeros are not
  told apart: the scripts never divide, and every comparison treats them alike.
\<close>

datatype fl = Fin real | PInf | NInf | NaN

text \<open>A binary format: the precision in bits, and the least and the greatest exponent of
  a normal number.\<close>

record format =
  prec :: nat
  emin :: int
  emax :: int

definition binary64 :: format where
  "binary64 = \<lparr>prec = 53, emin = - 1022, emax = 1023\<rparr>"

definition binary32 :: format where
  "binary32 = \<lparr>prec = 24, emin = - 126, emax = 127\<rparr>"

text \<open>Rounding to the nearest integer, a tie to the even one.\<close>

definition round_even :: "real \<Rightarrow> int" where
  "round_even x =
     (let f = \<lfloor>x\<rfloor> in
        if x - of_int f < 1 / 2 then f
        else if 1 / 2 < x - of_int f then f + 1
        else if even f then f else f + 1)"

text \<open>The unit in the last place at a nonzero real \<open>r\<close> (below the normal range the one of
  the subnormal numbers), the nearest number of the format with the exponent range
  unbounded above, and the largest finite number of the format.\<close>

definition ulp :: "format \<Rightarrow> real \<Rightarrow> real" where
  "ulp F r = 2 powr of_int (max \<lfloor>log 2 \<bar>r\<bar>\<rfloor> (emin F) - (int (prec F) - 1))"

definition rnd :: "format \<Rightarrow> real \<Rightarrow> real" where
  "rnd F r = (if r = 0 then 0 else of_int (round_even (r / ulp F r)) * ulp F r)"

definition fmax :: "format \<Rightarrow> real" where
  "fmax F = (2 - 2 powr (1 - real (prec F))) * 2 powr of_int (emax F)"

text \<open>The result of an arithmetic operation whose exact value is \<open>r\<close>: round to nearest,
  ties to even; a rounded value beyond the largest finite number overflows to the
  infinity of its sign.\<close>

definition fl_round :: "format \<Rightarrow> real \<Rightarrow> fl" where
  "fl_round F r =
     (let v = rnd F r in
        if fmax F < \<bar>v\<bar> then (if r < 0 then NInf else PInf) else Fin v)"

fun fl_neg :: "fl \<Rightarrow> fl" where
  "fl_neg (Fin a) = Fin (- a)"
| "fl_neg PInf = NInf"
| "fl_neg NInf = PInf"
| "fl_neg NaN = NaN"

text \<open>Addition: NaN is absorbing, and the sum of the two opposite infinities is NaN.\<close>

fun fl_add :: "format \<Rightarrow> fl \<Rightarrow> fl \<Rightarrow> fl" where
  "fl_add F (Fin a) (Fin b) = fl_round F (a + b)"
| "fl_add F (Fin a) PInf = PInf"
| "fl_add F (Fin a) NInf = NInf"
| "fl_add F PInf (Fin b) = PInf"
| "fl_add F PInf PInf = PInf"
| "fl_add F PInf NInf = NaN"
| "fl_add F NInf (Fin b) = NInf"
| "fl_add F NInf PInf = NaN"
| "fl_add F NInf NInf = NInf"
| "fl_add F NaN b = NaN"
| "fl_add F a NaN = NaN"

definition fl_sub :: "format \<Rightarrow> fl \<Rightarrow> fl \<Rightarrow> fl" where
  "fl_sub F a b = fl_add F a (fl_neg b)"

text \<open>Multiplication: NaN is absorbing, and an infinity times zero is NaN.\<close>

definition inf_times :: "bool \<Rightarrow> real \<Rightarrow> fl" where
  "inf_times positive a =
     (if a = 0 then NaN else if (0 < a) = positive then PInf else NInf)"

fun fl_mul :: "format \<Rightarrow> fl \<Rightarrow> fl \<Rightarrow> fl" where
  "fl_mul F (Fin a) (Fin b) = fl_round F (a * b)"
| "fl_mul F (Fin a) PInf = inf_times True a"
| "fl_mul F (Fin a) NInf = inf_times False a"
| "fl_mul F PInf (Fin b) = inf_times True b"
| "fl_mul F NInf (Fin b) = inf_times False b"
| "fl_mul F PInf PInf = PInf"
| "fl_mul F PInf NInf = NInf"
| "fl_mul F NInf PInf = NInf"
| "fl_mul F NInf NInf = PInf"
| "fl_mul F NaN b = NaN"
| "fl_mul F a NaN = NaN"

text \<open>\<^verbatim>\<open>np.maximum(v, 0)\<close> and \<^verbatim>\<open>v.clamp(min=0)\<close> on one entry (both hand NaN on), and the
  comparisons \<^verbatim>\<open>v < 0\<close> and \<^verbatim>\<open>v >= 0\<close>, which are false of NaN.\<close>

fun fl_max0 :: "fl \<Rightarrow> fl" where
  "fl_max0 (Fin a) = Fin (max a 0)"
| "fl_max0 PInf = PInf"
| "fl_max0 NInf = Fin 0"
| "fl_max0 NaN = NaN"

fun fl_lt0 :: "fl \<Rightarrow> bool" where
  "fl_lt0 (Fin a) = (a < 0)"
| "fl_lt0 PInf = False"
| "fl_lt0 NInf = True"
| "fl_lt0 NaN = False"

fun fl_ge0 :: "fl \<Rightarrow> bool" where
  "fl_ge0 (Fin a) = (0 \<le> a)"
| "fl_ge0 PInf = True"
| "fl_ge0 NInf = False"
| "fl_ge0 NaN = False"

section \<open>The training loop with a hand-written backward pass, in floating point\<close>

text \<open>
  \<^verbatim>\<open>two_layer_net_numpy.py\<close> and \<^verbatim>\<open>two_layer_net_tensor.py\<close> as they run: every entry is a
  floating-point value of the format \<open>F\<close>. The order in which a matrix product and
  \<^verbatim>\<open>sum()\<close> add their terms is the library's; here it is from left to right.
\<close>

record ftensor =
  fshape :: "nat list"
  fvals :: "fl list"

text \<open>\<^verbatim>\<open>a.mm(b)\<close> (numpy: \<^verbatim>\<open>a.dot(b)\<close> on matrices).\<close>

definition fl_dot :: "format \<Rightarrow> nat \<Rightarrow> nat \<Rightarrow> fl list \<Rightarrow> fl list \<Rightarrow> nat \<Rightarrow> nat \<Rightarrow> fl" where
  "fl_dot F k m a b i j =
     fold (\<lambda>l acc. fl_add F acc (fl_mul F (a ! (i * k + l)) (b ! (l * m + j)))) [0..<k] (Fin 0)"

definition fl_mm :: "format \<Rightarrow> ftensor \<Rightarrow> ftensor \<Rightarrow> error + ftensor" where
  "fl_mm F a b =
     (case fshape a of
        [n, k] \<Rightarrow>
          (case fshape b of
             [k', m] \<Rightarrow>
               if k = k'
               then Inr \<lparr>fshape = [n, m],
                         fvals = concat (map (\<lambda>i. map (\<lambda>j. fl_dot F k m (fvals a) (fvals b) i j)
                                                  [0..<m]) [0..<n])\<rparr>
               else Inl ShapeMismatch
           | _ \<Rightarrow> Inl ShapeMismatch)
      | _ \<Rightarrow> Inl ShapeMismatch)"

text \<open>\<^verbatim>\<open>a.t()\<close> (numpy: \<^verbatim>\<open>a.T\<close>) of a matrix.\<close>

definition fl_t :: "ftensor \<Rightarrow> error + ftensor" where
  "fl_t a =
     (case fshape a of
        [n, m] \<Rightarrow>
          Inr \<lparr>fshape = [m, n],
               fvals = concat (map (\<lambda>j. map (\<lambda>i. fvals a ! (i * m + j)) [0..<n]) [0..<m])\<rparr>
      | _ \<Rightarrow> Inl ShapeMismatch)"

text \<open>\<^verbatim>\<open>a.clamp(min=0)\<close> (numpy: \<^verbatim>\<open>np.maximum(a, 0)\<close>).\<close>

definition fl_clamp :: "ftensor \<Rightarrow> ftensor" where
  "fl_clamp a = a\<lparr>fvals := map fl_max0 (fvals a)\<rparr>"

text \<open>\<^verbatim>\<open>a - b\<close> with broadcasting: the shapes are aligned at their last dimension; two
  dimensions fit when they are equal or one of them is 1, and a missing dimension
  counts as 1. \<open>bcast\<close> works on the reversed shapes. \<open>src_index\<close> maps a position of the
  result (row-major) to the position of the operand's entry that is used there; it too
  takes the reversed shapes of the result and of the operand.\<close>

fun bcast :: "nat list \<Rightarrow> nat list \<Rightarrow> nat list option" where
  "bcast [] ys = Some ys"
| "bcast xs [] = Some xs"
| "bcast (x # xs) (y # ys) =
     (if x = y \<or> y = 1 then map_option ((#) x) (bcast xs ys)
      else if x = 1 then map_option ((#) y) (bcast xs ys)
      else None)"

fun src_index :: "nat list \<Rightarrow> nat list \<Rightarrow> nat \<Rightarrow> nat" where
  "src_index (s # ss) (p # ps) k = (if p = 1 then 0 else k mod s) + p * src_index ss ps (k div s)"
| "src_index ss ps k = 0"

definition fl_sub_t :: "format \<Rightarrow> ftensor \<Rightarrow> ftensor \<Rightarrow> error + ftensor" where
  "fl_sub_t F a b =
     (case bcast (rev (fshape a)) (rev (fshape b)) of
        None \<Rightarrow> Inl ShapeMismatch
      | Some rs \<Rightarrow>
          Inr \<lparr>fshape = rev rs,
               fvals = map (\<lambda>k. fl_sub F (fvals a ! src_index rs (rev (fshape a)) k)
                                          (fvals b ! src_index rs (rev (fshape b)) k))
                         [0..<numel rs]\<rparr>)"

text \<open>\<^verbatim>\<open>a.pow(2)\<close> (numpy: \<^verbatim>\<open>np.square(a)\<close>): every entry times itself.\<close>

definition fl_pow2 :: "format \<Rightarrow> ftensor \<Rightarrow> ftensor" where
  "fl_pow2 F a = a\<lparr>fvals := map (\<lambda>v. fl_mul F v v) (fvals a)\<rparr>"

text \<open>\<^verbatim>\<open>a.sum()\<close>, a scalar, and \<^verbatim>\<open>loss.item()\<close>. The library may add the entries in
  another order (numpy adds them pairwise); \<open>sums_to F vs s\<close> says that \<open>s\<close> is the result of
  adding the values \<open>vs\<close> in some bracketing.\<close>

definition fl_sum :: "format \<Rightarrow> ftensor \<Rightarrow> ftensor" where
  "fl_sum F a = \<lparr>fshape = [], fvals = [fold (\<lambda>v acc. fl_add F acc v) (fvals a) (Fin 0)]\<rparr>"

inductive sums_to :: "format \<Rightarrow> fl list \<Rightarrow> fl \<Rightarrow> bool" for F where
  none: "sums_to F [] (Fin 0)"
| one: "sums_to F [v] v"
| both: "sums_to F xs a \<Longrightarrow> sums_to F ys b \<Longrightarrow> sums_to F (xs @ ys) (fl_add F a b)"

definition fl_item :: "ftensor \<Rightarrow> error + fl" where
  "fl_item a = (case fvals a of [v] \<Rightarrow> Inr v | _ \<Rightarrow> Inl NotScalar)"

text \<open>\<^verbatim>\<open>c * a\<close> for a Python number \<open>c\<close>.\<close>

definition fl_smul :: "format \<Rightarrow> fl \<Rightarrow> ftensor \<Rightarrow> ftensor" where
  "fl_smul F c a = a\<lparr>fvals := map (fl_mul F c) (fvals a)\<rparr>"

text \<open>\<^verbatim>\<open>g[h < 0] = 0\<close>; the mask has the shape of \<open>g\<close>.\<close>

definition fl_setitem_lt0 :: "ftensor \<Rightarrow> ftensor \<Rightarrow> error + ftensor" where
  "fl_setitem_lt0 g h =
     (if fshape g = fshape h
      then Inr (g\<lparr>fvals := map2 (\<lambda>gv hv. if fl_lt0 hv then Fin 0 else gv) (fvals g) (fvals h)\<rparr>)
      else Inl ShapeMismatch)"

text \<open>\<^verbatim>\<open>w -= v\<close>: the difference is stored in \<open>w\<close>, so it must have the shape of \<open>w\<close>.\<close>

definition fl_isub :: "format \<Rightarrow> ftensor \<Rightarrow> ftensor \<Rightarrow> error + ftensor" where
  "fl_isub F w v =
     bindE (fl_sub_t F w v) (\<lambda>r. if fshape r = fshape w then Inr r else Inl ShapeMismatch)"

text \<open>The loss \<^verbatim>\<open>(y_pred - y).pow(2).sum()\<close> as the number that is printed.\<close>

definition printed_loss :: "format \<Rightarrow> ftensor \<Rightarrow> ftensor \<Rightarrow> error + fl" where
  "printed_loss F y_pred y =
     bindE (fl_sub_t F y_pred y) (\<lambda>d. fl_item (fl_sum F (fl_pow2 F d)))"

text \<open>One iteration of the loop: forward pass, loss (printed), backward pass and update.
  The result is the printed loss and the new weights.
  \<^verbatim>\<open>
    h = x.mm(w1); h_relu = h.clamp(min=0); y_pred = h_relu.mm(w2)
    loss = (y_pred - y).pow(2).sum(); print(t, loss.item())
    grad_y_pred = 2.0 * (y_pred - y)
    grad_w2 = h_relu.t().mm(grad_y_pred)
    grad_h_relu = grad_y_pred.mm(w2.t())
    grad_h = grad_h_relu.clone(); grad_h[h < 0] = 0
    grad_w1 = x.t().mm(grad_h)
    w1 -= learning_rate * grad_w1; w2 -= learning_rate * grad_w2
  \<close>\<close>

definition manual_iter ::
  "format \<Rightarrow> fl \<Rightarrow> ftensor \<Rightarrow> ftensor \<Rightarrow> ftensor \<times> ftensor \<Rightarrow> error + (fl \<times> ftensor \<times> ftensor)" where
  "manual_iter F lr x y w =
     (case w of (w1, w2) \<Rightarrow>
        bindE (fl_mm F x w1) (\<lambda>h.
        let h_relu = fl_clamp h in
        bindE (fl_mm F h_relu w2) (\<lambda>y_pred.
        bindE (printed_loss F y_pred y) (\<lambda>printed.
        bindE (fl_sub_t F y_pred y) (\<lambda>d.
        let grad_y_pred = fl_smul F (Fin 2) d in
        bindE (fl_t h_relu) (\<lambda>h_relu_t.
        bindE (fl_mm F h_relu_t grad_y_pred) (\<lambda>grad_w2.
        bindE (fl_t w2) (\<lambda>w2_t.
        bindE (fl_mm F grad_y_pred w2_t) (\<lambda>grad_h_relu.
        bindE (fl_setitem_lt0 grad_h_relu h) (\<lambda>grad_h.
        bindE (fl_t x) (\<lambda>x_t.
        bindE (fl_mm F x_t grad_h) (\<lambda>grad_w1.
        bindE (fl_isub F w1 (fl_smul F lr grad_w1)) (\<lambda>w1'.
        bindE (fl_isub F w2 (fl_smul F lr grad_w2)) (\<lambda>w2'.
          Inr (printed, w1', w2')))))))))))))))"

text \<open>\<^verbatim>\<open>for t in range(T)\<close>: the losses printed, in order, and the final weights. A failing
  iteration ends the run.\<close>

fun manual_loop ::
  "format \<Rightarrow> nat \<Rightarrow> fl \<Rightarrow> ftensor \<Rightarrow> ftensor \<Rightarrow> ftensor \<times> ftensor \<Rightarrow>
     error + (fl list \<times> ftensor \<times> ftensor)" where
  "manual_loop F 0 lr x y w = Inr ([], w)"
| "manual_loop F (Suc T) lr x y w =
     bindE (manual_iter F lr x y w) (\<lambda>(printed, w').
     bindE (manual_loop F T lr x y w') (\<lambda>(rest, w'').
       Inr (printed # rest, w'')))"

text \<open>The two scripts: 500 steps with the learning rate \<^verbatim>\<open>1e-6\<close>, in double precision
  (numpy) and in single precision (the default of \<^verbatim>\<open>torch.randn\<close>).\<close>

definition two_layer_net_numpy ::
  "ftensor \<Rightarrow> ftensor \<Rightarrow> ftensor \<Rightarrow> ftensor \<Rightarrow> error + (fl list \<times> ftensor \<times> ftensor)" where
  "two_layer_net_numpy x y w1 w2 =
     manual_loop binary64 n_steps (fl_round binary64 learning_rate) x y (w1, w2)"

definition two_layer_net_tensor ::
  "ftensor \<Rightarrow> ftensor \<Rightarrow> ftensor \<Rightarrow> ftensor \<Rightarrow> error + (fl list \<times> ftensor \<times> ftensor)" where
  "two_layer_net_tensor x y w1 w2 =
     manual_loop binary32 n_steps (fl_round binary32 learning_rate) x y (w1, w2)"

section \<open>The custom autograd function \<open>MyReLU\<close>\<close>

text \<open>\<^verbatim>\<open>two_layer_net_custom_function.py\<close>. \<open>forward\<close> saves its input in the context and
  returns \<^verbatim>\<open>x.clamp(min=0)\<close>; \<open>backward\<close> reads the saved input back:
  \<^verbatim>\<open>
    x, = ctx.saved_tensors
    grad_x = grad_output.clone()
    grad_x[x < 0] = 0
    return grad_x
  \<close>
  The context is modelled by its one saved tensor.\<close>

definition MyReLU_forward :: "tensor \<Rightarrow> tensor \<times> tensor" where
  "MyReLU_forward x = (x, clamp_min 0 x)"

definition MyReLU_backward :: "tensor \<Rightarrow> tensor \<Rightarrow> error + tensor" where
  "MyReLU_backward ctx grad_output =
     (let x = ctx; grad_x = clone grad_output in setitem_lt0 grad_x x)"

section \<open>A reverse-mode automatic-differentiation engine\<close>

text \<open>
  The scripts \<^verbatim>\<open>two_layer_net_autograd.py\<close>, \<^verbatim>\<open>two_layer_net_custom_function.py\<close> and
  \<^verbatim>\<open>dynamic_net.py\<close> call \<^verbatim>\<open>loss.backward()\<close> of the autograd library. The library is
  not part of the repository; the engine below follows the design that the
  specification gives for it (tensor with gradient accumulator, operation node,
  graph, backward traversal).
\<close>

text \<open>Modelled from the spec: the operator kinds of the autograd library, which is not
  in the repository (sections 4.1 and 4.2: matrix multiply, clamp-to-nonnegative,
  subtract, power, sum, linear layer), and a custom operator whose pair of functions
  is the notebook's \<open>MyReLU\<close>.\<close>

datatype opkind = MmOp | ClampOp | SubOp | PowOp nat | SumOp | LinearOp | MyReLUOp

text \<open>Modelled from the spec: the operation node of the autograd library (section 3),
  holding its operator and references to its input tensors (ids in the store below).\<close>

record node =
  op :: opkind
  inputs :: "nat list"

text \<open>Modelled from the spec: the library's tensor (section 3), a value with a
  gradient-tracking flag, an optional gradient accumulator (initially unset) and, for a derived tensor,
  the one operation node that created it. A leaf has no creating node.\<close>

record variable =
  data :: tensor
  requires_grad :: bool
  grad :: "tensor option"
  grad_fn :: "node option"

text \<open>The tensors alive in one forward pass, in the order of their creation; a
  tensor's id is its position.\<close>

type_synonym store = "variable list"

definition leaf :: "tensor \<Rightarrow> bool \<Rightarrow> variable" where
  "leaf a rg = \<lparr>data = a, requires_grad = rg, grad = None, grad_fn = None\<rparr>"

subsection \<open>Operators: forward and backward\<close>

text \<open>Entrywise sum and product of two tensors of one shape.\<close>

definition add_elems :: "tensor \<Rightarrow> tensor \<Rightarrow> tensor" where
  "add_elems a b = \<lparr>shape = shape a, elems = map2 (+) (elems a) (elems b)\<rparr>"

definition add_t :: "tensor \<Rightarrow> tensor \<Rightarrow> error + tensor" where
  "add_t a b = (if shape a = shape b then Inr (add_elems a b) else Inl ShapeMismatch)"

definition mul_t :: "tensor \<Rightarrow> tensor \<Rightarrow> error + tensor" where
  "mul_t a b =
     (if shape a = shape b
      then Inr \<lparr>shape = shape a, elems = map2 (*) (elems a) (elems b)\<rparr>
      else Inl ShapeMismatch)"

text \<open>Modelled from the spec: the library's linear layer \<^verbatim>\<open>torch.nn.Linear\<close> (the
  "linear layer" operator of section 4.2): \<open>y = x W\<^sup>T + b\<close> for a weight of shape
  \<open>[out, in]\<close> and a bias of shape \<open>[out]\<close>, the bias added to every row.\<close>

definition add_bias :: "tensor \<Rightarrow> tensor \<Rightarrow> error + tensor" where
  "add_bias a b =
     (case shape a of
        [n, m] \<Rightarrow>
          (case shape b of
             [m'] \<Rightarrow>
               if m = m'
               then Inr \<lparr>shape = [n, m],
                         elems = map (\<lambda>i. elems a ! i + elems b ! (i mod m)) [0..<n * m]\<rparr>
               else Inl ShapeMismatch
           | _ \<Rightarrow> Inl ShapeMismatch)
      | _ \<Rightarrow> Inl ShapeMismatch)"

definition linear :: "tensor \<Rightarrow> tensor \<Rightarrow> tensor \<Rightarrow> error + tensor" where
  "linear x w b = bindE (t_mat w) (\<lambda>w_t. bindE (mm x w_t) (\<lambda>xw. add_bias xw b))"

text \<open>The sum of the rows of a matrix: the gradient that reaches a bias.\<close>

definition sum_rows :: "tensor \<Rightarrow> error + tensor" where
  "sum_rows g =
     (case shape g of
        [n, m] \<Rightarrow> Inr \<lparr>shape = [m], elems = map (\<lambda>j. \<Sum>i\<leftarrow>[0..<n]. elems g ! (i * m + j)) [0..<m]\<rparr>
      | _ \<Rightarrow> Inl ShapeMismatch)"

text \<open>Modelled from the spec: the library's \<open>forward(inputs) \<rightarrow> output\<close> of section 4.2.\<close>

fun op_forward :: "opkind \<Rightarrow> tensor list \<Rightarrow> error + tensor" where
  "op_forward MmOp [a, b] = mm a b"
| "op_forward ClampOp [a] = Inr (clamp_min 0 a)"
| "op_forward SubOp [a, b] = sub_t a b"
| "op_forward (PowOp p) [a] = Inr (pow_t p a)"
| "op_forward SumOp [a] = Inr (sum_t a)"
| "op_forward LinearOp [x, w, b] = linear x w b"
| "op_forward MyReLUOp [a] = Inr (snd (MyReLU_forward a))"
| "op_forward _ _ = Inl BadArguments"

text \<open>Modelled from the spec: the library's \<open>backward(grad_output) \<rightarrow> grad_inputs\<close> of
  section 4.2, one
  gradient per input, from the values cached by the forward pass (here the inputs
  themselves). The closed forms are the ones of the notebook's hand-written backward
  pass; clamp zeroes the gradient where its input was strictly negative (the edge
  case policy of section 4.2).\<close>

fun op_backward :: "opkind \<Rightarrow> tensor list \<Rightarrow> tensor \<Rightarrow> error + tensor list" where
  "op_backward MmOp [a, b] g =
     bindE (t_mat b) (\<lambda>b_t. bindE (mm g b_t) (\<lambda>grad_a.
     bindE (t_mat a) (\<lambda>a_t. bindE (mm a_t g) (\<lambda>grad_b. Inr [grad_a, grad_b]))))"
| "op_backward ClampOp [a] g = bindE (setitem_lt0 (clone g) a) (\<lambda>grad_a. Inr [grad_a])"
| "op_backward SubOp [a, b] g =
     (if shape g = shape a \<and> shape g = shape b then Inr [g, smul (- 1) g]
      else Inl ShapeMismatch)"
| "op_backward (PowOp p) [a] g =
     bindE (mul_t (smul (real p) (pow_t (p - 1) a)) g) (\<lambda>grad_a. Inr [grad_a])"
| "op_backward SumOp [a] g =
     (case elems g of
        [v] \<Rightarrow> Inr [\<lparr>shape = shape a, elems = map (\<lambda>_. v) (elems a)\<rparr>]
      | _ \<Rightarrow> Inl NotScalar)"
| "op_backward LinearOp [x, w, b] g =
     bindE (mm g w) (\<lambda>grad_x.
     bindE (t_mat g) (\<lambda>g_t. bindE (mm g_t x) (\<lambda>grad_w.
     bindE (sum_rows g) (\<lambda>grad_b. Inr [grad_x, grad_w, grad_b]))))"
| "op_backward MyReLUOp [a] g =
     bindE (MyReLU_backward (fst (MyReLU_forward a)) g) (\<lambda>grad_a. Inr [grad_a])"
| "op_backward _ _ _ = Inl BadArguments"

subsection \<open>Recording the graph\<close>

text \<open>Modelled from the spec: the library's graph recording, section 4.1, "each operation
  that supports gradients must,
  at call time, construct the corresponding operation node if any input has
  gradient-tracking enabled", and the no-tracking scope of sections 4.4 and 9 as an
  explicit flag passed into the operation. The result is a new tensor at the end of
  the store; nothing that was in the store changes.\<close>

definition apply_op :: "bool \<Rightarrow> opkind \<Rightarrow> nat list \<Rightarrow> store \<Rightarrow> error + (store \<times> nat)" where
  "apply_op grad_enabled k ins S =
     (if \<exists>j\<in>set ins. length S \<le> j then Inl BadIndex
      else
        bindE (op_forward k (map (\<lambda>j. data (S ! j)) ins)) (\<lambda>v.
          let rg = (grad_enabled \<and> (\<exists>j\<in>set ins. requires_grad (S ! j)))
          in Inr (S @ [\<lparr>data = v, requires_grad = rg, grad = None,
                        grad_fn = (if rg then Some \<lparr>op = k, inputs = ins\<rparr> else None)\<rparr>],
                  length S)))"

subsection \<open>Backward traversal\<close>

text \<open>Modelled from the spec: the library's accumulation, section 4.3, "add (not
  overwrite ...) the result into each
  input's gradient accumulator". An unset accumulator takes the contribution as its
  value.\<close>

definition accumulate :: "tensor option \<Rightarrow> tensor \<Rightarrow> error + tensor" where
  "accumulate acc g = (case acc of None \<Rightarrow> Inr g | Some a \<Rightarrow> add_t a g)"

text \<open>Modelled from the spec: the gradients of one node, added into the accumulators of
  its inputs; only
  tensors whose gradient-tracking flag is set accumulate (section 3).\<close>

fun add_grads :: "store \<Rightarrow> (nat \<times> tensor) list \<Rightarrow> error + store" where
  "add_grads S [] = Inr S"
| "add_grads S ((j, g) # rest) =
     (if j < length S \<and> requires_grad (S ! j)
      then bindE (accumulate (grad (S ! j)) g) (\<lambda>a.
             add_grads (S[j := (S ! j)\<lparr>grad := Some a\<rparr>]) rest)
      else add_grads S rest)"

text \<open>Modelled from the spec: one step of the library's traversal, section 4.3, "for each
  node,
  invoke its backward function with the accumulated gradient at its output". A leaf,
  and a node that no gradient has reached, have nothing to propagate. Inputs are
  created before the node that uses them, so their ids are smaller; a store where
  this fails is not a graph built by a forward pass.\<close>

definition visit :: "store \<Rightarrow> nat \<Rightarrow> error + store" where
  "visit S i =
     (case grad_fn (S ! i) of
        None \<Rightarrow> Inr S
      | Some nd \<Rightarrow>
          (case grad (S ! i) of
             None \<Rightarrow> Inr S
           | Some g \<Rightarrow>
               if \<exists>j\<in>set (inputs nd). i \<le> j then Inl BadIndex
               else
                 bindE (op_backward (op nd) (map (\<lambda>j. data (S ! j)) (inputs nd)) g) (\<lambda>gs.
                   add_grads S (zip (inputs nd) gs))))"

fun visit_all :: "store \<Rightarrow> nat list \<Rightarrow> error + store" where
  "visit_all S [] = Inr S"
| "visit_all S (i # is) = bindE (visit S i) (\<lambda>S'. visit_all S' is)"

text \<open>Modelled from the spec: the library's \<^verbatim>\<open>backward()\<close>, section 4.3. The root must be
  a scalar whose
  gradient-tracking is enabled; its accumulator is seeded with 1; the nodes are visited
  in reverse order of their construction, which is a reverse topological order
  ("a node is visited only after all nodes that consume its output have been
  visited").\<close>

definition one_scalar :: tensor where
  "one_scalar = \<lparr>shape = [], elems = [1]\<rparr>"

definition backward :: "store \<Rightarrow> nat \<Rightarrow> error + store" where
  "backward S r =
     (if length S \<le> r then Inl BadIndex
      else if shape (data (S ! r)) \<noteq> [] then Inl NotScalar
      else if \<not> requires_grad (S ! r) then Inl NoGraph
      else visit_all (S[r := (S ! r)\<lparr>grad := Some one_scalar\<rparr>]) (rev [0..<Suc r]))"

section \<open>The two-layer network with autograd\<close>

text \<open>
  \<^verbatim>\<open>two_layer_net_autograd.py\<close> and \<^verbatim>\<open>two_layer_net_custom_function.py\<close>. The store of a
  run starts with the four tensors the script creates: \<open>x\<close> (id 0), \<open>y\<close> (id 1), and the
  weights \<open>w1\<close> (id 2) and \<open>w2\<close> (id 3), created with \<^verbatim>\<open>requires_grad=True\<close>.
\<close>

definition init_store :: "tensor \<Rightarrow> tensor \<Rightarrow> tensor \<Rightarrow> tensor \<Rightarrow> store" where
  "init_store x y w1 w2 = [leaf x False, leaf y False, leaf w1 True, leaf w2 True]"

text \<open>\<^verbatim>\<open>loss = (y_pred - y).pow(2).sum()\<close> on tracked tensors; also what
  \<^verbatim>\<open>torch.nn.MSELoss(reduction='sum')\<close> computes ("the sum of squared errors", as the
  notebook puts it).\<close>

definition sum_squared_error :: "nat \<Rightarrow> nat \<Rightarrow> store \<Rightarrow> error + (store \<times> nat)" where
  "sum_squared_error y_pred y S =
     bindE (apply_op True SubOp [y_pred, y] S) (\<lambda>(S, d).
     bindE (apply_op True (PowOp 2) [d] S) (\<lambda>(S, sq).
       apply_op True SumOp [sq] S))"

text \<open>The forward pass \<^verbatim>\<open>y_pred = x.mm(w1).clamp(min=0).mm(w2)\<close> and the loss. The second
  script differs in one operator, \<^verbatim>\<open>MyReLU.apply(x.mm(w1)).mm(w2)\<close>, so the operator
  between the two products is an argument: \<open>ClampOp\<close> or \<open>MyReLUOp\<close>.\<close>

definition autograd_forward :: "opkind \<Rightarrow> store \<Rightarrow> error + (store \<times> nat)" where
  "autograd_forward relu S =
     bindE (apply_op True MmOp [0, 2] S) (\<lambda>(S, h).
     bindE (apply_op True relu [h] S) (\<lambda>(S, h_relu).
     bindE (apply_op True MmOp [h_relu, 3] S) (\<lambda>(S, y_pred).
       sum_squared_error y_pred 1 S)))"

text \<open>\<^verbatim>\<open>w.grad\<close>, read where a tensor is needed.\<close>

definition get_grad :: "store \<Rightarrow> nat \<Rightarrow> error + tensor" where
  "get_grad S j =
     (if length S \<le> j then Inl BadIndex
      else case grad (S ! j) of None \<Rightarrow> Inl GradUnset | Some g \<Rightarrow> Inr g)"

text \<open>\<^verbatim>\<open>w -= v\<close>: the in-place subtraction. With recording off it changes the value of
  \<open>w\<close> and nothing else. With recording on, the library rejects the in-place update of
  a tensor that requires grad (the notebook never attempts it).\<close>

definition isub :: "bool \<Rightarrow> nat \<Rightarrow> tensor \<Rightarrow> store \<Rightarrow> error + store" where
  "isub grad_enabled j v S =
     (if length S \<le> j then Inl BadIndex
      else if grad_enabled \<and> requires_grad (S ! j) then Inl InplaceOnLeaf
      else bindE (sub_t (data (S ! j)) v) (\<lambda>d. Inr (S[j := (S ! j)\<lparr>data := d\<rparr>])))"

text \<open>The update
  \<^verbatim>\<open>
    w1 -= learning_rate * w1.grad
    w2 -= learning_rate * w2.grad
  \<close>
  under the recording flag of the enclosing scope.\<close>

definition sgd_update :: "bool \<Rightarrow> real \<Rightarrow> store \<Rightarrow> error + store" where
  "sgd_update grad_enabled lr S =
     bindE (get_grad S 2) (\<lambda>g1.
     bindE (isub grad_enabled 2 (smul lr g1) S) (\<lambda>S.
     bindE (get_grad S 3) (\<lambda>g2.
       isub grad_enabled 3 (smul lr g2) S)))"

text \<open>\<^verbatim>\<open>w.grad.zero_()\<close>.\<close>

definition grad_zero :: "nat \<Rightarrow> store \<Rightarrow> error + store" where
  "grad_zero j S = bindE (get_grad S j) (\<lambda>g. Inr (S[j := (S ! j)\<lparr>grad := Some (zero_t g)\<rparr>]))"

text \<open>The block under \<^verbatim>\<open>with torch.no_grad():\<close>: the update, then
  \<^verbatim>\<open>w1.grad.zero_(); w2.grad.zero_()\<close>, all with recording off.\<close>

definition no_grad_block :: "real \<Rightarrow> store \<Rightarrow> error + store" where
  "no_grad_block lr S =
     bindE (sgd_update False lr S) (\<lambda>S.
     bindE (grad_zero 2 S) (\<lambda>S.
       grad_zero 3 S))"

text \<open>One iteration of the loop: forward pass and loss, \<^verbatim>\<open>print(t, loss.item())\<close>,
  \<^verbatim>\<open>loss.backward()\<close>, and the block above. The backward traversal \<open>bw\<close> is the
  library's; it is an argument here. The tensors derived in the iteration are dropped
  at its end (the graph is rebuilt on every forward pass): the four tensors of the
  script remain.\<close>

definition autograd_iter ::
  "(store \<Rightarrow> nat \<Rightarrow> error + store) \<Rightarrow> opkind \<Rightarrow> real \<Rightarrow> store \<Rightarrow> error + (real \<times> store)" where
  "autograd_iter bw relu lr S =
     bindE (autograd_forward relu S) (\<lambda>(S1, loss).
     bindE (item (data (S1 ! loss))) (\<lambda>printed.
     bindE (bw S1 loss) (\<lambda>S2.
     bindE (no_grad_block lr S2) (\<lambda>S3.
       Inr (printed, take 4 S3)))))"

fun autograd_loop ::
  "nat \<Rightarrow> (store \<Rightarrow> nat \<Rightarrow> error + store) \<Rightarrow> opkind \<Rightarrow> real \<Rightarrow> store \<Rightarrow> error + (real list \<times> store)" where
  "autograd_loop 0 bw relu lr S = Inr ([], S)"
| "autograd_loop (Suc T) bw relu lr S =
     bindE (autograd_iter bw relu lr S) (\<lambda>(printed, S').
     bindE (autograd_loop T bw relu lr S') (\<lambda>(rest, S'').
       Inr (printed # rest, S'')))"

definition two_layer_net_autograd ::
  "tensor \<Rightarrow> tensor \<Rightarrow> tensor \<Rightarrow> tensor \<Rightarrow> error + (real list \<times> store)" where
  "two_layer_net_autograd x y w1 w2 =
     autograd_loop n_steps backward ClampOp learning_rate (init_store x y w1 w2)"

definition two_layer_net_custom_function ::
  "tensor \<Rightarrow> tensor \<Rightarrow> tensor \<Rightarrow> tensor \<Rightarrow> error + (real list \<times> store)" where
  "two_layer_net_custom_function x y w1 w2 =
     autograd_loop n_steps backward MyReLUOp learning_rate (init_store x y w1 w2)"


section \<open>\<open>DynamicNet\<close>: control flow and weight sharing\<close>

text \<open>
  \<^verbatim>\<open>dynamic_net.py\<close>. A \<^verbatim>\<open>torch.nn.Linear\<close> module holds a weight and a bias, both tensors
  that require grad; the module is modelled by the ids of the two. \<open>DynamicNet\<close> holds
  three such modules.
\<close>

record linear_module =
  weight :: nat
  bias :: nat

record DynamicNet =
  input_linear :: linear_module
  middle_linear :: linear_module
  output_linear :: linear_module

definition linear_call :: "linear_module \<Rightarrow> nat \<Rightarrow> store \<Rightarrow> error + (store \<times> nat)" where
  "linear_call L x S = apply_op True LinearOp [x, weight L, bias L] S"

definition clamp_call :: "nat \<Rightarrow> store \<Rightarrow> error + (store \<times> nat)" where
  "clamp_call x S = apply_op True ClampOp [x] S"

text \<open>The loop
  \<^verbatim>\<open>
    for _ in range(random.randint(0, 3)):
        h_relu = self.middle_linear(h_relu).clamp(min=0)
  \<close>
  for a draw \<open>k\<close> of \<^verbatim>\<open>random.randint(0, 3)\<close>.\<close>

fun middle_layers :: "nat \<Rightarrow> linear_module \<Rightarrow> nat \<Rightarrow> store \<Rightarrow> error + (store \<times> nat)" where
  "middle_layers 0 L h_relu S = Inr (S, h_relu)"
| "middle_layers (Suc k) L h_relu S =
     bindE (linear_call L h_relu S) (\<lambda>(S, a).
     bindE (clamp_call a S) (\<lambda>(S, h_relu).
       middle_layers k L h_relu S))"

text \<open>\<open>DynamicNet.forward\<close>; the draw \<open>k\<close> of the random number is an argument.\<close>

definition DynamicNet_forward :: "DynamicNet \<Rightarrow> nat \<Rightarrow> nat \<Rightarrow> store \<Rightarrow> error + (store \<times> nat)" where
  "DynamicNet_forward net k x S =
     bindE (linear_call (input_linear net) x S) (\<lambda>(S, a).
     bindE (clamp_call a S) (\<lambda>(S, h_relu).
     bindE (middle_layers k (middle_linear net) h_relu S) (\<lambda>(S, h_relu).
       linear_call (output_linear net) h_relu S)))"

text \<open>The tensors of the script: \<open>x\<close> (id 0), \<open>y\<close> (id 1), and weight and bias of the
  input layer (2, 3), the middle layer (4, 5) and the output layer (6, 7).\<close>

definition dynamic_store ::
  "tensor \<Rightarrow> tensor \<Rightarrow> tensor \<times> tensor \<Rightarrow> tensor \<times> tensor \<Rightarrow> tensor \<times> tensor \<Rightarrow> store" where
  "dynamic_store x y inp mid out =
     [leaf x False, leaf y False, leaf (fst inp) True, leaf (snd inp) True,
      leaf (fst mid) True, leaf (snd mid) True, leaf (fst out) True, leaf (snd out) True]"

definition dynamic_net :: DynamicNet where
  "dynamic_net =
     \<lparr>input_linear = \<lparr>weight = 2, bias = 3\<rparr>,
      middle_linear = \<lparr>weight = 4, bias = 5\<rparr>,
      output_linear = \<lparr>weight = 6, bias = 7\<rparr>\<rparr>"

text \<open>Forward pass \<^verbatim>\<open>y_pred = model(x)\<close>, \<^verbatim>\<open>loss = criterion(y_pred, y)\<close> and
  \<^verbatim>\<open>loss.backward()\<close> of one iteration.\<close>

definition dynamic_grads :: "nat \<Rightarrow> store \<Rightarrow> error + store" where
  "dynamic_grads k S =
     bindE (DynamicNet_forward dynamic_net k 0 S) (\<lambda>(S, y_pred).
     bindE (sum_squared_error y_pred 1 S) (\<lambda>(S, loss).
       backward S loss))"

text \<open>Modelled from the spec: the "statically-unrolled equivalent" of section 8, a network
  with one independent linear layer per application, each with a weight and a bias of
  its own.\<close>

fun unrolled_layers :: "linear_module list \<Rightarrow> nat \<Rightarrow> store \<Rightarrow> error + (store \<times> nat)" where
  "unrolled_layers [] h_relu S = Inr (S, h_relu)"
| "unrolled_layers (L # Ls) h_relu S =
     bindE (linear_call L h_relu S) (\<lambda>(S, a).
     bindE (clamp_call a S) (\<lambda>(S, h_relu).
       unrolled_layers Ls h_relu S))"

definition unrolled_forward ::
  "linear_module \<Rightarrow> linear_module list \<Rightarrow> linear_module \<Rightarrow> nat \<Rightarrow> store \<Rightarrow> error + (store \<times> nat)" where
  "unrolled_forward inp mids out x S =
     bindE (linear_call inp x S) (\<lambda>(S, a).
     bindE (clamp_call a S) (\<lambda>(S, h_relu).
     bindE (unrolled_layers mids h_relu S) (\<lambda>(S, h_relu).
       linear_call out h_relu S)))"

text \<open>Modelled from the spec: the tensors of the unrolled network for \<open>k\<close> applications:
  \<open>x\<close> (id 0), \<open>y\<close> (id 1), the input layer (2, 3), the output layer (4, 5), and \<open>k\<close>
  copies of the middle layer's weight and bias (copy \<open>i\<close> at \<open>6 + 2 i\<close> and \<open>7 + 2 i\<close>),
  "sharing the same weight values".\<close>

definition unrolled_store ::
  "nat \<Rightarrow> tensor \<Rightarrow> tensor \<Rightarrow> tensor \<times> tensor \<Rightarrow> tensor \<times> tensor \<Rightarrow> tensor \<times> tensor \<Rightarrow> store" where
  "unrolled_store k x y inp mid out =
     [leaf x False, leaf y False, leaf (fst inp) True, leaf (snd inp) True,
      leaf (fst out) True, leaf (snd out) True]
     @ concat (replicate k [leaf (fst mid) True, leaf (snd mid) True])"

definition copy_module :: "nat \<Rightarrow> linear_module" where
  "copy_module i = \<lparr>weight = 6 + 2 * i, bias = 7 + 2 * i\<rparr>"

definition unrolled_grads :: "nat \<Rightarrow> store \<Rightarrow> error + store" where
  "unrolled_grads k S =
     bindE (unrolled_forward \<lparr>weight = 2, bias = 3\<rparr> (map copy_module [0..<k])
              \<lparr>weight = 4, bias = 5\<rparr> 0 S) (\<lambda>(S, y_pred).
     bindE (sum_squared_error y_pred 1 S) (\<lambda>(S, loss).
       backward S loss))"

text \<open>The sum of the gradients of the copies, in the order in which the backward
  traversal meets them; no copy, no gradient.\<close>

fun sum_grads :: "tensor option list \<Rightarrow> tensor option" where
  "sum_grads [] = None"
| "sum_grads (g # gs) =
     (case sum_grads gs of
        None \<Rightarrow> g
      | Some a \<Rightarrow> (case g of None \<Rightarrow> Some a | Some c \<Rightarrow> Some (add_elems a c)))"

section \<open>Auxiliary notions for the proofs\<close>

text \<open>Two stores hold the same graph when they have the same tensors with the same
  values, flags and creating nodes; their gradient accumulators may differ.\<close>

definition same_graph :: "store \<Rightarrow> store \<Rightarrow> bool" where
  "same_graph S S' \<longleftrightarrow>
     length S' = length S \<and>
     (\<forall>j. data (S' ! j) = data (S ! j) \<and> requires_grad (S' ! j) = requires_grad (S ! j) \<and>
          grad_fn (S' ! j) = grad_fn (S ! j))"



text \<open>The value of an operation whose operands fit.\<close>

definition mm_v :: "tensor \<Rightarrow> tensor \<Rightarrow> tensor" where
  "mm_v a b = projr (mm a b)"

definition t_v :: "tensor \<Rightarrow> tensor" where
  "t_v a = projr (t_mat a)"

definition linear_v :: "tensor \<Rightarrow> tensor \<Rightarrow> tensor \<Rightarrow> tensor" where
  "linear_v x w b = projr (linear x w b)"

definition sub_v :: "tensor \<Rightarrow> tensor \<Rightarrow> tensor" where
  "sub_v a b = projr (sub_t a b)"

definition mask_v :: "tensor \<Rightarrow> tensor \<Rightarrow> tensor" where
  "mask_v g a = projr (setitem_lt0 g a)"

definition mul_v :: "tensor \<Rightarrow> tensor \<Rightarrow> tensor" where
  "mul_v a b = projr (mul_t a b)"

definition sum_rows_v :: "tensor \<Rightarrow> tensor" where
  "sum_rows_v g = projr (sum_rows g)"

text \<open>A small graph with two consumers of one leaf \<open>w\<close>: \<open>sum (clamp w - w\<^sup>2)\<close>. The leaf
  has id 0, the clamp id 1, the square id 2, the difference id 3 and the sum id 4.\<close>

definition two_consumers :: "tensor \<Rightarrow> error + (store \<times> nat)" where
  "two_consumers w =
     bindE (apply_op True ClampOp [0] [leaf w True]) (\<lambda>(S, a).
     bindE (apply_op True (PowOp 2) [0] S) (\<lambda>(S, b).
     bindE (apply_op True SubOp [a, b] S) (\<lambda>(S, d).
       apply_op True SumOp [d] S)))"
section \<open>Properties of the tensor operations\<close>

lemma bindE_Inr [simp]: "bindE (Inr v) f = f v"
  by (simp add: bindE_def)

lemma bindE_Inl [simp]: "bindE (Inl e) f = Inl e"
  by (simp add: bindE_def)

lemma bindE_eq_Inr: "bindE m f = Inr r \<longleftrightarrow> (\<exists>v. m = Inr v \<and> f v = Inr r)"
  by (cases m) simp_all

lemma mm_shapes:
  "shape a = [n, k] \<Longrightarrow> shape b = [k, m] \<Longrightarrow>
   mm a b = Inr \<lparr>shape = [n, m], elems = mm_elems n k m (elems a) (elems b)\<rparr>"
  by (simp add: mm_def)

lemma mm_eq_Inr:
  "mm a b = Inr c \<longleftrightarrow>
     (\<exists>n k m. shape a = [n, k] \<and> shape b = [k, m] \<and>
        c = \<lparr>shape = [n, m], elems = mm_elems n k m (elems a) (elems b)\<rparr>)"
  by (auto simp: mm_def split: list.splits)


lemma t_mat_shapes:
  "shape a = [n, m] \<Longrightarrow> t_mat a = Inr \<lparr>shape = [m, n], elems = t_elems n m (elems a)\<rparr>"
  by (simp add: t_mat_def)

lemma length_t_elems [simp]: "length (t_elems n m a) = m * n"
  by (simp add: t_elems_def length_concat comp_def sum_list_triv)

lemma shape_clamp_min [simp]: "shape (clamp_min c a) = shape a"
  by (simp add: clamp_min_def)

lemma elems_clamp_min [simp]: "elems (clamp_min c a) = map (\<lambda>v. max v c) (elems a)"
  by (simp add: clamp_min_def)

lemma shape_smul [simp]: "shape (smul c a) = shape a"
  by (simp add: smul_def)

lemma elems_smul [simp]: "elems (smul c a) = map (\<lambda>v. c * v) (elems a)"
  by (simp add: smul_def)

lemma shape_pow_t [simp]: "shape (pow_t p a) = shape a"
  by (simp add: pow_t_def)

lemma elems_pow_t [simp]: "elems (pow_t p a) = map (\<lambda>v. v ^ p) (elems a)"
  by (simp add: pow_t_def)

lemma shape_zero_t [simp]: "shape (zero_t a) = shape a"
  by (simp add: zero_t_def)

lemma elems_zero_t [simp]: "elems (zero_t a) = map (\<lambda>_. 0) (elems a)"
  by (simp add: zero_t_def)

lemma setitem_lt0_entries:
  assumes "shape g = shape h" and "length (elems g) = length (elems h)"
  shows "\<exists>r. setitem_lt0 g h = Inr r \<and> shape r = shape g \<and>
           length (elems r) = length (elems g) \<and>
           (\<forall>i<length (elems h). elems r ! i = (if elems h ! i < 0 then 0 else elems g ! i))"
  using assms by (simp add: setitem_lt0_def)

section \<open>The printed loss is never negative, but it can be NaN\<close>

subsection \<open>Rounding keeps the sign\<close>

lemma ulp_pos: "0 < ulp F r"
  by (simp add: ulp_def)

lemma round_even_nonneg: "0 \<le> x \<Longrightarrow> 0 \<le> round_even x"
  by (auto simp: round_even_def Let_def)

lemma round_even_of_int [simp]: "round_even (of_int n) = n"
  by (simp add: round_even_def)

lemma rnd_nonneg: "0 \<le> r \<Longrightarrow> 0 \<le> rnd F r"
  using ulp_pos [of F r] by (simp add: rnd_def round_even_nonneg)

lemma rnd_zero [simp]: "rnd F 0 = 0"
  by (simp add: rnd_def)

lemma fl_round_ge0: "0 \<le> r \<Longrightarrow> fl_ge0 (fl_round F r)"
  by (simp add: fl_round_def Let_def rnd_nonneg)

lemma fl_mul_self: "fl_mul F v v = NaN \<or> fl_ge0 (fl_mul F v v)"
  by (cases v) (simp_all add: fl_round_ge0)

lemma fl_mul_self_ge0: "v \<noteq> NaN \<Longrightarrow> fl_ge0 (fl_mul F v v)"
  by (cases v) (simp_all add: fl_round_ge0)

lemma fl_add_ge0: "fl_ge0 a \<Longrightarrow> fl_ge0 b \<Longrightarrow> fl_ge0 (fl_add F a b)"
  by (cases a; cases b) (simp_all add: fl_round_ge0)

lemma fl_add_NaN_left [simp]: "fl_add F NaN b = NaN"
  by (cases b) simp_all

lemma fl_add_NaN_right [simp]: "fl_add F a NaN = NaN"
  by (cases a) simp_all

lemma fl_mul_NaN_left [simp]: "fl_mul F NaN b = NaN"
  by (cases b) simp_all

lemma fl_mul_NaN_right [simp]: "fl_mul F a NaN = NaN"
  by (cases a) simp_all

lemma fl_add_nn:
  "a = NaN \<or> fl_ge0 a \<Longrightarrow> b = NaN \<or> fl_ge0 b \<Longrightarrow> fl_add F a b = NaN \<or> fl_ge0 (fl_add F a b)"
  by (auto simp: fl_add_ge0)

lemma fold_add_ge0:
  "\<forall>v\<in>set vs. fl_ge0 v \<Longrightarrow> fl_ge0 acc \<Longrightarrow> fl_ge0 (fold (\<lambda>v acc. fl_add F acc v) vs acc)"
  by (induction vs arbitrary: acc) (simp_all add: fl_add_ge0)

lemma fold_add_nn:
  "\<forall>v\<in>set vs. v = NaN \<or> fl_ge0 v \<Longrightarrow> acc = NaN \<or> fl_ge0 acc \<Longrightarrow>
   fold (\<lambda>v acc. fl_add F acc v) vs acc = NaN \<or> fl_ge0 (fold (\<lambda>v acc. fl_add F acc v) vs acc)"
proof (induction vs arbitrary: acc)
  case Nil
  then show ?case by simp
next
  case (Cons v vs)
  from Cons.prems have "fl_add F acc v = NaN \<or> fl_ge0 (fl_add F acc v)"
    by (intro fl_add_nn) simp_all
  with Cons.prems(1) show ?case by (simp add: Cons.IH)
qed

subsection \<open>The loss\<close>

lemma sum_pow2_nn:
  "fl_item (fl_sum F (fl_pow2 F d)) = Inr l \<Longrightarrow> l = NaN \<or> fl_ge0 l"
  using fold_add_nn [of "map (\<lambda>v. fl_mul F v v) (fvals d)" "Fin 0" F]
  by (auto simp: fl_item_def fl_sum_def fl_pow2_def fl_mul_self)

lemma sum_pow2_ge0:
  "NaN \<notin> set (fvals d) \<Longrightarrow> fl_item (fl_sum F (fl_pow2 F d)) = Inr l \<Longrightarrow> fl_ge0 l"
  using fold_add_ge0 [of "map (\<lambda>v. fl_mul F v v) (fvals d)" "Fin 0" F]
  by (auto simp: fl_item_def fl_sum_def fl_pow2_def intro: fl_mul_self_ge0)

text \<open>The same holds in whatever order the squares are added; the sum from left to right
  is one of the orders.\<close>

lemma sums_to_nn:
  "sums_to F vs l \<Longrightarrow> \<forall>v\<in>set vs. v = NaN \<or> fl_ge0 v \<Longrightarrow> l = NaN \<or> fl_ge0 l"
proof (induction rule: sums_to.induct)
  case none
  then show ?case by simp
next
  case (one v)
  then show ?case by simp
next
  case (both xs a ys b)
  then have "a = NaN \<or> fl_ge0 a" "b = NaN \<or> fl_ge0 b" by simp_all
  then show ?case by (rule fl_add_nn)
qed

lemma sum_pow2_any_order:
  "sums_to F (map (\<lambda>v. fl_mul F v v) us) l \<Longrightarrow> l = NaN \<or> fl_ge0 l"
  by (erule sums_to_nn) (simp add: fl_mul_self)

lemma fold_sums_to:
  "sums_to F us a \<Longrightarrow> sums_to F (us @ vs) (fold (\<lambda>v acc. fl_add F acc v) vs a)"
proof (induction vs arbitrary: us a)
  case Nil
  then show ?case by simp
next
  case (Cons v vs)
  from Cons.prems have "sums_to F (us @ [v]) (fl_add F a v)"
    by (intro sums_to.both sums_to.one)
  from Cons.IH [OF this] show ?case by simp
qed

lemma fl_sum_sums_to: "sums_to F (fvals a) (hd (fvals (fl_sum F a)))"
  using fold_sums_to [OF sums_to.none, of F "fvals a"] by (simp add: fl_sum_def)

lemma printed_loss_nn: "printed_loss F y_pred y = Inr l \<Longrightarrow> l = NaN \<or> fl_ge0 l"
  by (auto simp: printed_loss_def bindE_eq_Inr dest: sum_pow2_nn)

lemma printed_loss_ge0:
  "fl_sub_t F y_pred y = Inr d \<Longrightarrow> NaN \<notin> set (fvals d) \<Longrightarrow> printed_loss F y_pred y = Inr l \<Longrightarrow>
   fl_ge0 l"
  by (auto simp: printed_loss_def dest: sum_pow2_ge0)

lemma manual_iter_nn: "manual_iter F lr x y w = Inr (l, w') \<Longrightarrow> l = NaN \<or> fl_ge0 l"
  by (auto simp: manual_iter_def bindE_eq_Inr Let_def split: prod.splits dest: printed_loss_nn)

lemma manual_loop_nn:
  "manual_loop F T lr x y w = Inr (ls, w') \<Longrightarrow> l \<in> set ls \<Longrightarrow> l = NaN \<or> fl_ge0 l"
proof (induction T arbitrary: w ls)
  case 0
  then show ?case by simp
next
  case (Suc T)
  from Suc.prems(1) obtain v w1 rest where
    it: "manual_iter F lr x y w = Inr (v, w1)" and
    lp: "manual_loop F T lr x y w1 = Inr (rest, w')" and
    ls: "ls = v # rest"
    by (auto simp: bindE_eq_Inr split: prod.splits)
  from Suc.prems(2) ls have "l = v \<or> l \<in> set rest" by simp
  then show ?case
    using manual_iter_nn [OF it] Suc.IH [OF lp] by auto
qed

subsection \<open>The loop runs when the shapes fit\<close>

lemma bcast_same: "bcast xs xs = Some xs"
  by (induction xs) simp_all

lemma fl_mm_shapes:
  "fshape a = [n, k] \<Longrightarrow> fshape b = [k, m] \<Longrightarrow>
   \<exists>c. fl_mm F a b = Inr c \<and> fshape c = [n, m]"
  by (simp add: fl_mm_def)

lemma fl_t_shapes: "fshape a = [n, m] \<Longrightarrow> \<exists>c. fl_t a = Inr c \<and> fshape c = [m, n]"
  by (simp add: fl_t_def)

lemma fl_sub_t_same:
  "fshape a = fshape b \<Longrightarrow> \<exists>c. fl_sub_t F a b = Inr c \<and> fshape c = fshape a"
  by (simp add: fl_sub_t_def bcast_same)

lemma fl_isub_same:
  "fshape w = fshape v \<Longrightarrow> \<exists>c. fl_isub F w v = Inr c \<and> fshape c = fshape w"
  using fl_sub_t_same [of w v F] by (auto simp: fl_isub_def)

lemma printed_loss_total:
  "fshape y_pred = fshape y \<Longrightarrow> \<exists>l. printed_loss F y_pred y = Inr l"
  using fl_sub_t_same [of y_pred y F]
  by (auto simp: printed_loss_def fl_item_def fl_sum_def)

lemma shape_fl_clamp [simp]: "fshape (fl_clamp a) = fshape a"
  by (simp add: fl_clamp_def)

lemma shape_fl_smul [simp]: "fshape (fl_smul F c a) = fshape a"
  by (simp add: fl_smul_def)

lemma manual_iter_total:
  assumes "fshape x = [n, d]" "fshape y = [n, q]" "fshape w1 = [d, h]" "fshape w2 = [h, q]"
  shows "\<exists>v w1' w2'. manual_iter F lr x y (w1, w2) = Inr (v, w1', w2') \<and>
           fshape w1' = [d, h] \<and> fshape w2' = [h, q]"
proof -
  from fl_mm_shapes [OF assms(1,3)] obtain hh where
    hh: "fl_mm F x w1 = Inr hh" "fshape hh = [n, h]" by blast
  then have hr: "fshape (fl_clamp hh) = [n, h]" by simp
  from fl_mm_shapes [OF hr assms(4)] obtain yp where
    yp: "fl_mm F (fl_clamp hh) w2 = Inr yp" "fshape yp = [n, q]" by blast
  from yp(2) assms(2) have same: "fshape yp = fshape y" by simp
  from printed_loss_total [OF same] obtain l where l: "printed_loss F yp y = Inr l" by blast
  from fl_sub_t_same [OF same] yp(2) obtain dd where
    dd: "fl_sub_t F yp y = Inr dd" "fshape dd = [n, q]" by auto
  then have gy: "fshape (fl_smul F (Fin 2) dd) = [n, q]" by simp
  from fl_t_shapes [OF hr] obtain hrt where
    hrt: "fl_t (fl_clamp hh) = Inr hrt" "fshape hrt = [h, n]" by blast
  from fl_mm_shapes [OF hrt(2) gy] obtain gw2 where
    gw2: "fl_mm F hrt (fl_smul F (Fin 2) dd) = Inr gw2" "fshape gw2 = [h, q]" by blast
  from fl_t_shapes [OF assms(4)] obtain w2t where
    w2t: "fl_t w2 = Inr w2t" "fshape w2t = [q, h]" by blast
  from fl_mm_shapes [OF gy w2t(2)] obtain ghr where
    ghr: "fl_mm F (fl_smul F (Fin 2) dd) w2t = Inr ghr" "fshape ghr = [n, h]" by blast
  from ghr(2) hh(2) obtain gh where
    gh: "fl_setitem_lt0 ghr hh = Inr gh" "fshape gh = [n, h]"
    by (simp add: fl_setitem_lt0_def)
  from fl_t_shapes [OF assms(1)] obtain xt where
    xt: "fl_t x = Inr xt" "fshape xt = [d, n]" by blast
  from fl_mm_shapes [OF xt(2) gh(2)] obtain gw1 where
    gw1: "fl_mm F xt gh = Inr gw1" "fshape gw1 = [d, h]" by blast
  from fl_isub_same [of w1 "fl_smul F lr gw1" F] assms(3) gw1(2) obtain a where
    a: "fl_isub F w1 (fl_smul F lr gw1) = Inr a" "fshape a = [d, h]" by auto
  from fl_isub_same [of w2 "fl_smul F lr gw2" F] assms(4) gw2(2) obtain b where
    b: "fl_isub F w2 (fl_smul F lr gw2) = Inr b" "fshape b = [h, q]" by auto
  show ?thesis
    by (simp add: manual_iter_def Let_def hh yp l dd hrt gw2 w2t ghr gh xt gw1 a b)
qed

lemma manual_loop_total:
  assumes "fshape x = [n, d]" "fshape y = [n, q]" "fshape w1 = [d, h]" "fshape w2 = [h, q]"
  shows "\<exists>ls w1' w2'. manual_loop F T lr x y (w1, w2) = Inr (ls, w1', w2') \<and> length ls = T \<and>
           fshape w1' = [d, h] \<and> fshape w2' = [h, q]"
  using assms(3,4)
proof (induction T arbitrary: w1 w2)
  case 0
  then show ?case by simp
next
  case (Suc T)
  from manual_iter_total [OF assms(1,2) Suc.prems, of F lr]
  obtain v a b where it: "manual_iter F lr x y (w1, w2) = Inr (v, a, b)"
    and sh: "fshape a = [d, h]" "fshape b = [h, q]" by blast
  from Suc.IH [OF sh] obtain ls a' b' where
    "manual_loop F T lr x y (a, b) = Inr (ls, a', b')" "length ls = T"
    "fshape a' = [d, h]" "fshape b' = [h, q]" by blast
  with it show ?case by simp
qed

subsection \<open>Rounding at powers of two, and overflow\<close>

lemma rnd_pow2:
  assumes "0 < prec F" "emin F \<le> int k"
  shows "rnd F (2 ^ k) = 2 ^ k"
proof -
  define p where "p = prec F - 1"
  from assms(1) have p: "int (prec F) - 1 = int p" by (simp add: p_def)
  have "log 2 \<bar>2 ^ k\<bar> = real k" by simp
  then have fl: "\<lfloor>log 2 \<bar>(2::real) ^ k\<bar>\<rfloor> = int k" by simp
  have u: "ulp F (2 ^ k) = 2 powr (real k - real p)"
    unfolding ulp_def fl using assms(2) p by (simp add: max_def)
  have "(2::real) ^ k / 2 powr (real k - real p) = 2 powr real p"
    by (simp add: powr_diff powr_realpow)
  also have "\<dots> = of_int (2 ^ p)" by (simp add: powr_realpow)
  finally have q: "(2::real) ^ k / 2 powr (real k - real p) = of_int (2 ^ p)" .
  have "rnd F (2 ^ k) = of_int (2 ^ p) * 2 powr (real k - real p)"
    unfolding rnd_def u q round_even_of_int by simp
  also have "\<dots> = 2 ^ k" by (simp add: powr_diff powr_realpow)
  finally show ?thesis .
qed

lemma fmax_less: "fmax F < 2 * 2 powr of_int (emax F)"
  by (simp add: fmax_def)

lemma fmax_ge:
  assumes "0 < prec F"
  shows "2 powr of_int (emax F) \<le> fmax F"
proof -
  from assms have "(2::real) powr (1 - real (prec F)) \<le> 2 powr 0"
    by (intro powr_mono) simp_all
  then have "1 \<le> 2 - (2::real) powr (1 - real (prec F))" by simp
  then have "1 * 2 powr of_int (emax F) \<le> (2 - 2 powr (1 - real (prec F))) * 2 powr of_int (emax F)"
    by (intro mult_right_mono) simp_all
  then show ?thesis by (simp add: fmax_def)
qed

lemma fl_round_pow2:
  assumes "0 < prec F" "emin F \<le> int k" "int k \<le> emax F"
  shows "fl_round F (2 ^ k) = Fin (2 ^ k)"
proof -
  have "(2::real) ^ k = 2 powr of_int (int k)" by (simp add: powr_realpow)
  also from assms(3) have "\<dots> \<le> 2 powr of_int (emax F)"
    by (intro powr_mono) simp_all
  also note fmax_ge [OF assms(1)]
  finally have "\<not> fmax F < \<bar>(2::real) ^ k\<bar>" by simp
  then show ?thesis by (simp add: fl_round_def rnd_pow2 [OF assms(1,2)])
qed

lemma fl_round_overflow:
  assumes "0 < prec F" "emin F \<le> int k" "emax F < int k"
  shows "fl_round F (2 ^ k) = PInf"
proof -
  note fmax_less [of F]
  also have "2 * 2 powr of_int (emax F) = (2::real) powr of_int (emax F + 1)"
    by (simp add: powr_add)
  also from assms(3) have "\<dots> \<le> 2 powr of_int (int k)"
    by (intro powr_mono) simp_all
  also have "\<dots> = 2 ^ k" by (simp add: powr_realpow)
  finally have "fmax F < \<bar>(2::real) ^ k\<bar>" by simp
  then show ?thesis by (simp add: fl_round_def rnd_pow2 [OF assms(1,2)])
qed

lemma fmax_nonneg: "0 \<le> fmax F"
proof -
  have "(2::real) powr (1 - real (prec F)) \<le> 2 powr 1"
    by (intro powr_mono) simp_all
  then show ?thesis by (simp add: fmax_def)
qed

lemma fl_round_zero [simp]: "fl_round F 0 = Fin 0"
  using fmax_nonneg [of F] by (simp add: fl_round_def)

text \<open>Integers of fewer bits than the precision are numbers of the format.\<close>

lemma rnd_of_int:
  assumes "0 < prec F" "emin F \<le> 0" "\<bar>n\<bar> < 2 ^ prec F"
  shows "rnd F (of_int n) = of_int n"
proof (cases "n = 0")
  case True
  then show ?thesis by simp
next
  case False
  define e where "e = \<lfloor>log 2 \<bar>real_of_int n\<bar>\<rfloor>"
  from False have "1 \<le> \<bar>n\<bar>" by arith
  then have "real_of_int 1 \<le> real_of_int \<bar>n\<bar>" by (simp only: of_int_le_iff)
  then have one: "1 \<le> \<bar>real_of_int n\<bar>" by simp
  then have "0 \<le> log 2 \<bar>real_of_int n\<bar>" by simp
  then have e0: "0 \<le> e" by (simp add: e_def)
  from assms(3) have "\<bar>real_of_int n\<bar> < 2 ^ prec F"
    by (metis of_int_abs of_int_less_iff of_int_numeral of_int_power)
  then have "\<bar>real_of_int n\<bar> < 2 powr real (prec F)" by (simp add: powr_realpow)
  with one have "log 2 \<bar>real_of_int n\<bar> < real (prec F)"
    by (subst log_less_iff) simp_all
  then have e1: "e < int (prec F)" by (simp add: e_def floor_less_iff)
  define m where "m = nat (int (prec F) - 1 - e)"
  from e1 have m: "e - (int (prec F) - 1) = - int m" by (simp add: m_def)
  from e0 assms(2) have mx: "max e (emin F) = e" by simp
  have "ulp F (of_int n) = 2 powr of_int (e - (int (prec F) - 1))"
    unfolding ulp_def e_def [symmetric] mx ..
  also have "\<dots> = 2 powr of_int (- int m)" by (simp only: m)
  also have "\<dots> = 1 / 2 ^ m" by (simp add: powr_minus powr_realpow field_simps)
  finally have u: "ulp F (of_int n) = 1 / 2 ^ m" .
  have q: "real_of_int n / (1 / 2 ^ m) = of_int (n * 2 ^ m)" by simp
  from False have "rnd F (of_int n) = of_int (n * 2 ^ m) * (1 / 2 ^ m)"
    unfolding rnd_def u q round_even_of_int by simp
  also have "\<dots> = of_int n" by simp
  finally show ?thesis .
qed

lemma fl_round_of_int:
  assumes "0 < prec F" "emin F \<le> 0" "int (prec F) \<le> emax F" "\<bar>n\<bar> < 2 ^ prec F"
  shows "fl_round F (of_int n) = Fin (of_int n)"
proof -
  from assms(4) have "\<bar>real_of_int n\<bar> < 2 ^ prec F"
    by (metis of_int_abs of_int_less_iff of_int_numeral of_int_power)
  also have "(2::real) ^ prec F = 2 powr of_int (int (prec F))" by (simp add: powr_realpow)
  also from assms(3) have "\<dots> \<le> 2 powr of_int (emax F)"
    by (intro powr_mono) simp_all
  also note fmax_ge [OF assms(1)]
  finally have "\<not> fmax F < \<bar>real_of_int n\<bar>" by simp
  then show ?thesis by (simp add: fl_round_def rnd_of_int [OF assms(1,2,4)])
qed

lemma binary64_int: "\<bar>n\<bar> < 2 ^ 53 \<Longrightarrow> fl_round binary64 (of_int n) = Fin (of_int n)"
  by (rule fl_round_of_int) (simp_all add: binary64_def)

lemma binary32_int: "\<bar>n\<bar> < 2 ^ 24 \<Longrightarrow> fl_round binary32 (of_int n) = Fin (of_int n)"
  by (rule fl_round_of_int) (simp_all add: binary32_def)

lemma binary64_numeral:
  "(numeral k :: int) < 2 ^ 53 \<Longrightarrow> fl_round binary64 (numeral k) = Fin (numeral k)"
  using binary64_int [of "numeral k"] by simp

lemma binary64_neg_numeral:
  "(numeral k :: int) < 2 ^ 53 \<Longrightarrow> fl_round binary64 (- numeral k) = Fin (- numeral k)"
  using binary64_int [of "- numeral k"] by simp

lemma binary64_one: "fl_round binary64 1 = Fin 1" "fl_round binary64 (- 1) = Fin (- 1)"
  using binary64_int [of 1] binary64_int [of "- 1"] by simp_all

lemmas binary64_exact = binary64_numeral binary64_neg_numeral binary64_one

lemma upt_4: "[0..<4] = [0, 1, 2, 3::nat]"
  by code_simp

lemma upt_2: "[0..<2] = [0, 1::nat]"
  by code_simp

lemmas fl_run_rules = manual_iter_def printed_loss_def fl_mm_def fl_dot_def fl_clamp_def
  fl_sub_t_def fl_pow2_def fl_sum_def fl_item_def fl_smul_def fl_t_def fl_setitem_lt0_def
  fl_isub_def fl_sub_def numel_def Let_def

lemma sq_pow2: "(2::real) ^ k * 2 ^ k = 2 ^ (2 * k)"
  by (simp add: power_add mult_2)

subsection \<open>A run that overflows\<close>

text \<open>With \<open>x = w1 = [[2\<^sup>k]]\<close>, \<open>w2 = [[0]]\<close> and \<open>y = [[1]]\<close>, where \<open>2\<^sup>k\<close> is a number of the
  format and \<open>2\<^sup>k 2\<^sup>k\<close> is beyond its largest one: \<open>h\<close> is infinite, \<open>y_pred\<close> is
  \<open>inf * 0\<close>, and the loss and the new weights are NaN. From then on everything is
  NaN.\<close>

lemma overflow_iter:
  assumes "0 < prec F" "emin F \<le> int (2 * k)" "emax F < int (2 * k)"
  shows "manual_iter F lr \<lparr>fshape = [1, 1], fvals = [Fin (2 ^ k)]\<rparr> \<lparr>fshape = [1, 1], fvals = [Fin 1]\<rparr>
           (\<lparr>fshape = [1, 1], fvals = [Fin (2 ^ k)]\<rparr>, \<lparr>fshape = [1, 1], fvals = [Fin 0]\<rparr>)
         = Inr (NaN, \<lparr>fshape = [1, 1], fvals = [NaN]\<rparr>, \<lparr>fshape = [1, 1], fvals = [NaN]\<rparr>)"
  using fl_round_overflow [OF assms]
  by (simp add: fl_run_rules sq_pow2 inf_times_def)

lemma nan_iter:
  "manual_iter F lr \<lparr>fshape = [1, 1], fvals = [a]\<rparr> \<lparr>fshape = [1, 1], fvals = [b]\<rparr>
     (\<lparr>fshape = [1, 1], fvals = [NaN]\<rparr>, \<lparr>fshape = [1, 1], fvals = [NaN]\<rparr>)
   = Inr (NaN, \<lparr>fshape = [1, 1], fvals = [NaN]\<rparr>, \<lparr>fshape = [1, 1], fvals = [NaN]\<rparr>)"
  by (simp add: fl_run_rules)

lemma nan_loop:
  "manual_loop F T lr \<lparr>fshape = [1, 1], fvals = [a]\<rparr> \<lparr>fshape = [1, 1], fvals = [b]\<rparr>
     (\<lparr>fshape = [1, 1], fvals = [NaN]\<rparr>, \<lparr>fshape = [1, 1], fvals = [NaN]\<rparr>)
   = Inr (replicate T NaN, \<lparr>fshape = [1, 1], fvals = [NaN]\<rparr>, \<lparr>fshape = [1, 1], fvals = [NaN]\<rparr>)"
  by (induction T) (simp_all add: nan_iter [unfolded One_nat_def])

lemma overflow_loop:
  assumes "0 < prec F" "emin F \<le> int (2 * k)" "emax F < int (2 * k)" "0 < T"
  shows "manual_loop F T lr \<lparr>fshape = [1, 1], fvals = [Fin (2 ^ k)]\<rparr> \<lparr>fshape = [1, 1], fvals = [Fin 1]\<rparr>
           (\<lparr>fshape = [1, 1], fvals = [Fin (2 ^ k)]\<rparr>, \<lparr>fshape = [1, 1], fvals = [Fin 0]\<rparr>)
         = Inr (replicate T NaN, \<lparr>fshape = [1, 1], fvals = [NaN]\<rparr>, \<lparr>fshape = [1, 1], fvals = [NaN]\<rparr>)"
proof -
  from assms(4) obtain T' where T: "T = Suc T'" by (cases T) simp_all
  show ?thesis
    unfolding T
    by (simp add: overflow_iter [OF assms(1-3), unfolded One_nat_def] nan_loop [unfolded One_nat_def])
qed

text \<open>
  Claim C10, as stated: for every input, target and weights the loss reported after an
  iteration is greater than or equal to zero. It is not where the forward pass
  overflows: with \<open>x = w1 = [[2\<^sup>6\<^sup>0\<^sup>0]]\<close> in double precision (numpy), or \<open>[[2\<^sup>7\<^sup>0]]\<close> in
  single precision (torch), \<open>w2 = [[0]]\<close> and \<open>y = [[1]]\<close>, every one of the 500 losses is
  NaN, and \<^verbatim>\<open>nan >= 0\<close> is false.
\<close>

theorem printed_loss_nan_counterexample:
  "two_layer_net_numpy \<lparr>fshape = [1, 1], fvals = [Fin (2 ^ 600)]\<rparr> \<lparr>fshape = [1, 1], fvals = [Fin 1]\<rparr>
     \<lparr>fshape = [1, 1], fvals = [Fin (2 ^ 600)]\<rparr> \<lparr>fshape = [1, 1], fvals = [Fin 0]\<rparr>
   = Inr (replicate 500 NaN, \<lparr>fshape = [1, 1], fvals = [NaN]\<rparr>, \<lparr>fshape = [1, 1], fvals = [NaN]\<rparr>) \<and>
   two_layer_net_tensor \<lparr>fshape = [1, 1], fvals = [Fin (2 ^ 70)]\<rparr> \<lparr>fshape = [1, 1], fvals = [Fin 1]\<rparr>
     \<lparr>fshape = [1, 1], fvals = [Fin (2 ^ 70)]\<rparr> \<lparr>fshape = [1, 1], fvals = [Fin 0]\<rparr>
   = Inr (replicate 500 NaN, \<lparr>fshape = [1, 1], fvals = [NaN]\<rparr>, \<lparr>fshape = [1, 1], fvals = [NaN]\<rparr>) \<and>
   \<not> fl_ge0 NaN"
proof -
  have d: "0 < prec binary64" "emin binary64 \<le> int (2 * 600)" "emax binary64 < int (2 * 600)"
    and s: "0 < prec binary32" "emin binary32 \<le> int (2 * 70)" "emax binary32 < int (2 * 70)"
    and T: "0 < n_steps"
    by (simp_all add: binary64_def binary32_def n_steps_def)
  show ?thesis
    unfolding two_layer_net_numpy_def two_layer_net_tensor_def
      overflow_loop [OF d T] overflow_loop [OF s T]
    by (simp add: n_steps_def)
qed

text \<open>
  Claim C10, amended. The loss reported after every iteration is never negative: for every
  input, target and weights the computed loss \<open>sum((y_pred - y)\<^sup>2)\<close> is greater than or
  equal to zero (possibly infinite) or it is NaN, and it is greater than or equal to zero
  whenever no entry of \<open>y_pred - y\<close> is NaN. This holds of the loss line for all tensors
  \<open>y_pred\<close> and \<open>y\<close> (the difference is taken with broadcasting), so for every loss that the
  loop reports, in every binary floating-point format. Where the shapes of input, target
  and weights fit (\<open>x\<close> is \<open>n \<times> d\<close>, \<open>w1\<close> is \<open>d \<times> h\<close>, \<open>w2\<close> is \<open>h \<times> q\<close>, \<open>y\<close> is \<open>n \<times> q\<close>) the loop
  of \<open>T\<close> iterations does report \<open>T\<close> losses.
\<close>

theorem printed_loss_nonneg_or_nan:
  "(\<forall>y_pred l. printed_loss F y_pred y = Inr l \<longrightarrow> l = NaN \<or> fl_ge0 l) \<and>
   (\<forall>y_pred e l. fl_sub_t F y_pred y = Inr e \<and> NaN \<notin> set (fvals e) \<and>
        printed_loss F y_pred y = Inr l \<longrightarrow> fl_ge0 l) \<and>
   (\<forall>ls w'. manual_loop F T lr x y w = Inr (ls, w') \<longrightarrow> (\<forall>l\<in>set ls. l = NaN \<or> fl_ge0 l)) \<and>
   (fshape x = [n, d] \<and> fshape y = [n, q] \<and> fshape (fst w) = [d, h] \<and> fshape (snd w) = [h, q] \<longrightarrow>
      (\<exists>ls w'. manual_loop F T lr x y w = Inr (ls, w') \<and> length ls = T))"
proof (intro conjI allI impI ballI)
  fix y_pred l
  assume "printed_loss F y_pred y = Inr l"
  then show "l = NaN \<or> fl_ge0 l" by (rule printed_loss_nn)
next
  fix y_pred e l
  assume "fl_sub_t F y_pred y = Inr e \<and> NaN \<notin> set (fvals e) \<and> printed_loss F y_pred y = Inr l"
  then show "fl_ge0 l" by (blast intro: printed_loss_ge0)
next
  fix ls w' l
  assume "manual_loop F T lr x y w = Inr (ls, w')" and "l \<in> set ls"
  then show "l = NaN \<or> fl_ge0 l" by (rule manual_loop_nn)
next
  assume sh: "fshape x = [n, d] \<and> fshape y = [n, q] \<and> fshape (fst w) = [d, h] \<and>
    fshape (snd w) = [h, q]"
  obtain w1 w2 where w: "w = (w1, w2)" by (cases w)
  from sh w manual_loop_total [of x n d y q w1 h w2 F T lr]
  show "\<exists>ls w'. manual_loop F T lr x y w = Inr (ls, w') \<and> length ls = T"
    by auto
qed

lemma manual_loop_2:
  "manual_iter F lr x y w = Inr (a, w1) \<Longrightarrow> manual_iter F lr x y w1 = Inr (b, w2) \<Longrightarrow>
   manual_loop F 2 lr x y w = Inr ([a, b], w2)"
  by (simp add: numeral_2_eq_2)

theorem printed_loss_nonneg_or_nan_witness:
  "manual_loop binary64 2 (Fin 1) \<lparr>fshape = [1, 2], fvals = [Fin 1, Fin 2]\<rparr>
     \<lparr>fshape = [1, 1], fvals = [Fin 1]\<rparr>
     (\<lparr>fshape = [2, 2], fvals = [Fin 1, Fin 0, Fin (- 1), Fin 1]\<rparr>,
      \<lparr>fshape = [2, 1], fvals = [Fin 1, Fin 1]\<rparr>)
   = Inr ([Fin 1, Fin 1],
          \<lparr>fshape = [2, 2], fvals = [Fin 1, Fin (- 2), Fin (- 1), Fin (- 3)]\<rparr>,
          \<lparr>fshape = [2, 1], fvals = [Fin 1, Fin (- 3)]\<rparr>) \<and>
   fl_ge0 (Fin 1) \<and>
   printed_loss binary64 \<lparr>fshape = [2, 1], fvals = [Fin 1, Fin 2]\<rparr>
     \<lparr>fshape = [2], fvals = [Fin 0, Fin 1]\<rparr> = Inr (Fin 6) \<and>
   fl_ge0 (Fin 6)"
proof -
  let ?x = "\<lparr>fshape = [1, 2], fvals = [Fin 1, Fin 2]\<rparr>"
  let ?y = "\<lparr>fshape = [1, 1], fvals = [Fin 1]\<rparr>"
  let ?w = "(\<lparr>fshape = [2, 2], fvals = [Fin 1, Fin 0, Fin (- 1), Fin 1]\<rparr>,
             \<lparr>fshape = [2, 1], fvals = [Fin 1, Fin 1]\<rparr>)"
  let ?r = "(\<lparr>fshape = [2, 2], fvals = [Fin 1, Fin (- 2), Fin (- 1), Fin (- 3)]\<rparr>,
             \<lparr>fshape = [2, 1], fvals = [Fin 1, Fin (- 3)]\<rparr>)"
  let ?p = "\<lparr>fshape = [2, 1], fvals = [Fin 1, Fin 2]\<rparr>"
  let ?t = "\<lparr>fshape = [2], fvals = [Fin 0, Fin 1]\<rparr>"
  have it1: "manual_iter binary64 (Fin 1) ?x ?y ?w = Inr (Fin 1, ?r)"
    by (simp add: fl_run_rules binary64_exact upt_2 upt_4)
  have it2: "manual_iter binary64 (Fin 1) ?x ?y ?r = Inr (Fin 1, ?r)"
    by (simp add: fl_run_rules binary64_exact upt_2 upt_4)
  have run: "manual_loop binary64 2 (Fin 1) ?x ?y ?w = Inr ([Fin 1, Fin 1], ?r)"
    by (rule manual_loop_2 [OF it1 it2])
  have sub: "fl_sub_t binary64 ?p ?t
    = Inr \<lparr>fshape = [2, 2], fvals = [Fin 1, Fin 0, Fin 2, Fin 1]\<rparr>"
    by (simp add: fl_sub_t_def fl_sub_def numel_def binary64_exact upt_4)
  have loss: "printed_loss binary64 ?p ?t = Inr (Fin 6)"
    by (simp add: fl_run_rules binary64_exact upt_4)
  note loss_line = printed_loss_nonneg_or_nan [of binary64 ?t 2 "Fin 1" ?x ?w,
      THEN conjunct2, THEN conjunct1, rule_format, of ?p _ "Fin 6"]
  with sub loss have six: "fl_ge0 (Fin 6)" by simp
  note loop = printed_loss_nonneg_or_nan [of binary64 ?y 2 "Fin 1" ?x ?w,
      THEN conjunct2, THEN conjunct2, THEN conjunct1, rule_format, OF run]
  then have one: "fl_ge0 (Fin 1)" by simp
  from run one loss six show ?thesis by (intro conjI)
qed

section \<open>The backward function of MyReLU\<close>

lemma MyReLU_backward_setitem:
  "MyReLU_backward (fst (MyReLU_forward x)) g = setitem_lt0 g x"
  by (simp add: MyReLU_backward_def MyReLU_forward_def clone_def)

text \<open>
  Claim C2. For every input tensor and every output gradient of the same shape, the
  backward function of the ReLU operator returns a gradient that is zero at the
  entries where the forward input was strictly less than zero and equals the
  incoming output gradient at every other entry; an entry that is exactly zero lets
  the gradient through. The hand-written backward pass of the numpy and tensor
  scripts uses the same two statements (\<open>setitem_lt0 (clone g) h\<close> in
  \<open>manual_backprop\<close>).
\<close>

theorem MyReLU_backward_entries:
  assumes "shape grad_output = shape x" and "wf_tensor x" and "wf_tensor grad_output"
  shows "\<exists>grad_x. MyReLU_backward (fst (MyReLU_forward x)) grad_output = Inr grad_x \<and>
           shape grad_x = shape grad_output \<and>
           length (elems grad_x) = length (elems grad_output) \<and>
           (\<forall>i<length (elems x).
              elems grad_x ! i = (if elems x ! i < 0 then 0 else elems grad_output ! i))"
proof -
  from assms have "length (elems grad_output) = length (elems x)"
    by (simp add: wf_tensor_def)
  from setitem_lt0_entries [OF assms(1) this] show ?thesis
    unfolding MyReLU_backward_setitem .
qed

theorem MyReLU_backward_entries_witness:
  "\<exists>grad_x. MyReLU_backward (fst (MyReLU_forward \<lparr>shape = [3], elems = [- 2, 0, 3]\<rparr>))
     \<lparr>shape = [3], elems = [5, 6, 7]\<rparr> = Inr grad_x \<and> shape grad_x = [3] \<and>
     length (elems grad_x) = 3 \<and> 
     elems grad_x ! 0 = 0 \<and> elems grad_x ! 1 = 6 \<and> elems grad_x ! 2 = 7"
proof -
  let ?x = "\<lparr>shape = [3], elems = [- 2, 0, 3]\<rparr>" and ?g = "\<lparr>shape = [3], elems = [5, 6, 7]\<rparr>"
  have "shape ?g = shape ?x" "wf_tensor ?x" "wf_tensor ?g"
    by (simp_all add: wf_tensor_def numel_def)
  from MyReLU_backward_entries [OF this] obtain r where
    r: "MyReLU_backward (fst (MyReLU_forward ?x)) ?g = Inr r" and
    sh: "shape r = shape ?g" and len: "length (elems r) = length (elems ?g)" and
    en: "\<forall>i<length (elems ?x). elems r ! i = (if elems ?x ! i < 0 then 0 else elems ?g ! i)"
    by blast
  from en have "elems r ! 0 = 0" "elems r ! 1 = 6" "elems r ! 2 = 7"
    by simp_all
  moreover from sh len have "shape r = [3]" "length (elems r) = 3" by simp_all
  ultimately show ?thesis using r by blast
qed

text \<open>
  Claim C3, as stated: where an entry of the input is exactly zero, the backward function
  returns a zero gradient there. The code does not: the mask is \<^verbatim>\<open>x < 0\<close>, so at the
  first entry below (input 0, incoming gradient 5) the gradient 5 goes through.
\<close>

theorem MyReLU_backward_zero_entry_counterexample:
  "MyReLU_backward (fst (MyReLU_forward \<lparr>shape = [2], elems = [0, - 1]\<rparr>))
     \<lparr>shape = [2], elems = [5, 7]\<rparr> = Inr \<lparr>shape = [2], elems = [5, 0]\<rparr>"
  by (simp add: MyReLU_backward_def MyReLU_forward_def clone_def setitem_lt0_def)

text \<open>
  Claim C3, amended: where an entry of the input is exactly zero, the backward function
  returns the incoming output gradient at that entry, unchanged.
\<close>

theorem MyReLU_backward_at_zero:
  assumes "shape grad_output = shape x" and "wf_tensor x" and "wf_tensor grad_output"
    and "i < length (elems x)" and "elems x ! i = 0"
  shows "\<exists>grad_x. MyReLU_backward (fst (MyReLU_forward x)) grad_output = Inr grad_x \<and>
           elems grad_x ! i = elems grad_output ! i"
proof -
  from assms have "length (elems grad_output) = length (elems x)"
    by (simp add: wf_tensor_def)
  from setitem_lt0_entries [OF assms(1) this] obtain r where
    r: "setitem_lt0 grad_output x = Inr r" and
    en: "\<forall>i<length (elems x). elems r ! i = (if elems x ! i < 0 then 0 else elems grad_output ! i)"
    by blast
  from en assms(4,5) have "elems r ! i = elems grad_output ! i" by simp
  with r show ?thesis unfolding MyReLU_backward_setitem by blast
qed

theorem MyReLU_backward_at_zero_witness:
  "\<exists>grad_x. MyReLU_backward (fst (MyReLU_forward \<lparr>shape = [2], elems = [0, - 1]\<rparr>))
      \<lparr>shape = [2], elems = [5, 7]\<rparr> = Inr grad_x \<and> elems grad_x ! 0 = 5"
proof -
  let ?x = "\<lparr>shape = [2], elems = [0, - 1]\<rparr>" and ?g = "\<lparr>shape = [2], elems = [5, 7]\<rparr>"
  have "shape ?g = shape ?x" "wf_tensor ?x" "wf_tensor ?g" "0 < length (elems ?x)"
    "elems ?x ! 0 = 0"
    by (simp_all add: wf_tensor_def numel_def)
  from MyReLU_backward_at_zero [OF this] show ?thesis by simp
qed

section \<open>The backward traversal changes accumulators only\<close>

lemma same_graph_refl [simp]: "same_graph S S"
  by (simp add: same_graph_def)

lemma same_graph_trans: "same_graph S S' \<Longrightarrow> same_graph S' S'' \<Longrightarrow> same_graph S S''"
  by (simp add: same_graph_def)

lemma same_graph_set_grad: "same_graph S (S[j := (S ! j)\<lparr>grad := a\<rparr>])"
  by (cases "j < length S") (auto simp: same_graph_def nth_list_update list_update_beyond)

lemma add_grads_same_graph: "add_grads S ps = Inr S' \<Longrightarrow> same_graph S S'"
proof (induction S ps rule: add_grads.induct)
  case (1 S)
  then show ?case by simp
next
  case (2 S j g rest)
  show ?case
  proof (cases "j < length S \<and> requires_grad (S ! j)")
    case True
    with "2.prems" obtain a where a: "accumulate (grad (S ! j)) g = Inr a"
      and rest: "add_grads (S[j := (S ! j)\<lparr>grad := Some a\<rparr>]) rest = Inr S'"
      by (auto simp: bindE_eq_Inr)
    from "2.IH"(1) [OF True rest] same_graph_set_grad [of S j "Some a"]
    show ?thesis by (rule same_graph_trans [rotated])
  next
    case False
    with "2.prems" "2.IH"(2) show ?thesis by auto
  qed
qed

lemma add_grads_other:
  "add_grads S ps = Inr S' \<Longrightarrow> t \<notin> fst ` set ps \<Longrightarrow> S' ! t = S ! t"
proof (induction S ps rule: add_grads.induct)
  case (1 S)
  then show ?case by simp
next
  case (2 S j g rest)
  from "2.prems"(2) have tj: "t \<noteq> j" and tr: "t \<notin> fst ` set rest" by auto
  show ?case
  proof (cases "j < length S \<and> requires_grad (S ! j)")
    case True
    with "2.prems" obtain a where a: "accumulate (grad (S ! j)) g = Inr a"
      and rest: "add_grads (S[j := (S ! j)\<lparr>grad := Some a\<rparr>]) rest = Inr S'"
      by (auto simp: bindE_eq_Inr)
    from "2.IH"(1) [OF True rest tr] tj show ?thesis by simp
  next
    case False
    with "2.prems"(1) "2.IH"(2) tr show ?thesis by auto
  qed
qed

lemma add_grads_once:
  assumes "add_grads S (ps1 @ (t, g) # ps2) = Inr S'"
    and "t \<notin> fst ` set ps1" and "t \<notin> fst ` set ps2"
    and "t < length S" and "requires_grad (S ! t)"
  shows "\<exists>a. accumulate (grad (S ! t)) g = Inr a \<and> grad (S' ! t) = Some a"
  using assms
proof (induction ps1 arbitrary: S)
  case Nil
  then obtain a where a: "accumulate (grad (S ! t)) g = Inr a"
    and rest: "add_grads (S[t := (S ! t)\<lparr>grad := Some a\<rparr>]) ps2 = Inr S'"
    by (auto simp: bindE_eq_Inr)
  from add_grads_other [OF rest Nil.prems(3)] Nil.prems(4) a show ?case by simp
next
  case (Cons p ps1)
  obtain j g' where p: "p = (j, g')" by (cases p)
  from Cons.prems(2) p have tj: "t \<noteq> j" and t1: "t \<notin> fst ` set ps1" by auto
  show ?case
  proof (cases "j < length S \<and> requires_grad (S ! j)")
    case True
    with Cons.prems(1) p obtain a where
      rest: "add_grads (S[j := (S ! j)\<lparr>grad := Some a\<rparr>]) (ps1 @ (t, g) # ps2) = Inr S'"
      by (auto simp: bindE_eq_Inr)
    from Cons.IH [OF rest t1 Cons.prems(3)] Cons.prems(4,5) tj show ?thesis by simp
  next
    case False
    with Cons.prems(1) p have "add_grads S (ps1 @ (t, g) # ps2) = Inr S'" by auto
    from Cons.IH [OF this t1 Cons.prems(3,4,5)] show ?thesis .
  qed
qed

lemma op_backward_length:
  "op_backward k ins g = Inr gs \<Longrightarrow> length gs = length ins"
  by (induction k ins g rule: op_backward.induct)
     (auto simp: bindE_eq_Inr split: if_splits list.splits)

lemma visit_same_graph: "visit S i = Inr S' \<Longrightarrow> same_graph S S'"
  by (auto simp: visit_def bindE_eq_Inr split: option.splits if_splits dest: add_grads_same_graph)

lemma visit_above:
  assumes "visit S i = Inr S'" and "i \<le> j"
  shows "S' ! j = S ! j"
proof (cases "grad_fn (S ! i)")
  case None
  with assms show ?thesis by (simp add: visit_def)
next
  case (Some nd)
  show ?thesis
  proof (cases "grad (S ! i)")
    case None
    with Some assms show ?thesis by (simp add: visit_def)
  next
    case (Some g)
    with \<open>grad_fn (S ! i) = Some nd\<close> assms(1) obtain gs where
      small: "\<forall>k\<in>set (inputs nd). \<not> i \<le> k" and
      ag: "add_grads S (zip (inputs nd) gs) = Inr S'"
      by (auto simp: visit_def bindE_eq_Inr split: if_splits)
    from small assms(2) have "j \<notin> fst ` set (zip (inputs nd) gs)"
      by (auto dest!: set_zip_leftD)
    from add_grads_other [OF ag this] show ?thesis .
  qed
qed

lemma visit_not_input:
  assumes "visit S i = Inr S'" and "\<forall>nd. grad_fn (S ! i) = Some nd \<longrightarrow> t \<notin> set (inputs nd)"
  shows "S' ! t = S ! t"
proof (cases "grad_fn (S ! i)")
  case None
  with assms show ?thesis by (simp add: visit_def)
next
  case (Some nd)
  show ?thesis
  proof (cases "grad (S ! i)")
    case None
    with Some assms show ?thesis by (simp add: visit_def)
  next
    case (Some g)
    with \<open>grad_fn (S ! i) = Some nd\<close> assms(1) obtain gs where
      ag: "add_grads S (zip (inputs nd) gs) = Inr S'"
      by (auto simp: visit_def bindE_eq_Inr split: if_splits)
    from assms(2) \<open>grad_fn (S ! i) = Some nd\<close> have "t \<notin> fst ` set (zip (inputs nd) gs)"
      by (auto dest!: set_zip_leftD)
    from add_grads_other [OF ag this] show ?thesis .
  qed
qed

lemma visit_inputs_below:
  "visit S i = Inr S' \<Longrightarrow> grad_fn (S ! i) = Some nd \<Longrightarrow> grad (S ! i) = Some g \<Longrightarrow>
   k \<in> set (inputs nd) \<Longrightarrow> k < i"
  by (auto simp: visit_def bindE_eq_Inr not_le split: if_splits)

lemma visit_all_append:
  "visit_all S (xs @ ys) = bindE (visit_all S xs) (\<lambda>S'. visit_all S' ys)"
proof (induction xs arbitrary: S)
  case Nil
  show ?case by simp
next
  case (Cons i xs)
  show ?case by (cases "visit S i") (simp_all add: Cons.IH)
qed

lemma visit_all_same_graph: "visit_all S xs = Inr S' \<Longrightarrow> same_graph S S'"
proof (induction xs arbitrary: S)
  case Nil
  then show ?case by simp
next
  case (Cons i xs)
  then obtain S1 where v: "visit S i = Inr S1" and r: "visit_all S1 xs = Inr S'"
    by (auto simp: bindE_eq_Inr)
  from visit_same_graph [OF v] Cons.IH [OF r] show ?case by (rule same_graph_trans)
qed

lemma visit_all_above:
  "visit_all S xs = Inr S' \<Longrightarrow> \<forall>i\<in>set xs. i \<le> j \<Longrightarrow> S' ! j = S ! j"
proof (induction xs arbitrary: S)
  case Nil
  then show ?case by simp
next
  case (Cons i xs)
  then obtain S1 where v: "visit S i = Inr S1" and r: "visit_all S1 xs = Inr S'"
    by (auto simp: bindE_eq_Inr)
  from Cons.prems(2) have "i \<le> j" "\<forall>i\<in>set xs. i \<le> j" by simp_all
  with visit_above [OF v] Cons.IH [OF r] show ?case by simp
qed

lemma visit_all_not_input:
  assumes "visit_all S xs = Inr S'"
    and "\<forall>i\<in>set xs. \<forall>nd. grad_fn (S ! i) = Some nd \<longrightarrow> t \<notin> set (inputs nd)"
  shows "S' ! t = S ! t"
  using assms
proof (induction xs arbitrary: S)
  case Nil
  then show ?case by simp
next
  case (Cons i xs)
  then obtain S1 where v: "visit S i = Inr S1" and r: "visit_all S1 xs = Inr S'"
    by (auto simp: bindE_eq_Inr)
  from visit_same_graph [OF v] have "\<forall>j. grad_fn (S1 ! j) = grad_fn (S ! j)"
    by (simp add: same_graph_def)
  with Cons.prems(2)
  have "\<forall>i\<in>set xs. \<forall>nd. grad_fn (S1 ! i) = Some nd \<longrightarrow> t \<notin> set (inputs nd)" by simp
  from Cons.IH [OF r this] have "S' ! t = S1 ! t" .
  moreover from Cons.prems(2) have "\<forall>nd. grad_fn (S ! i) = Some nd \<longrightarrow> t \<notin> set (inputs nd)"
    by simp
  from visit_not_input [OF v this] have "S1 ! t = S ! t" .
  ultimately show ?case by simp
qed

lemma zip_split_at:
  assumes "p < length xs" and "length gs = length xs"
  shows "zip xs gs = zip (take p xs) (take p gs) @ (xs ! p, gs ! p) # zip (drop (Suc p) xs) (drop (Suc p) gs)"
proof -
  from assms have "p < length (zip xs gs)" by simp
  from id_take_nth_drop [OF this] assms show ?thesis
    by (simp add: take_zip drop_zip)
qed

lemma only_at_take: "\<forall>k<length xs. (xs ! k = t) = (k = p) \<Longrightarrow> t \<notin> set (take p xs)"
  by (auto simp: in_set_conv_nth)

lemma only_at_drop: "\<forall>k<length xs. (xs ! k = t) = (k = p) \<Longrightarrow> t \<notin> set (drop (Suc p) xs)"
  by (auto simp: in_set_conv_nth)

lemma visit_input_once:
  assumes v: "visit S i = Inr S'"
    and nd: "grad_fn (S ! i) = Some nd" and g: "grad (S ! i) = Some g"
    and p: "p < length (inputs nd)" and only: "\<forall>k<length (inputs nd). (inputs nd ! k = t) = (k = p)"
    and t: "t < length S" "requires_grad (S ! t)"
  shows "\<exists>gs a. op_backward (op nd) (map (\<lambda>j. data (S ! j)) (inputs nd)) g = Inr gs \<and>
           accumulate (grad (S ! t)) (gs ! p) = Inr a \<and> grad (S' ! t) = Some a"
proof -
  from v nd g obtain gs where
    ob: "op_backward (op nd) (map (\<lambda>j. data (S ! j)) (inputs nd)) g = Inr gs" and
    ag: "add_grads S (zip (inputs nd) gs) = Inr S'"
    by (auto simp: visit_def bindE_eq_Inr split: if_splits)
  from op_backward_length [OF ob] have len: "length gs = length (inputs nd)" by simp
  from only p have tp: "inputs nd ! p = t" by simp
  let ?ps1 = "zip (take p (inputs nd)) (take p gs)"
  let ?ps2 = "zip (drop (Suc p) (inputs nd)) (drop (Suc p) gs)"
  from zip_split_at [OF p len] tp
  have split: "zip (inputs nd) gs = ?ps1 @ (t, gs ! p) # ?ps2" by simp
  from only_at_take [OF only] have n1: "t \<notin> fst ` set ?ps1"
    by (auto dest!: set_zip_leftD)
  from only_at_drop [OF only] have n2: "t \<notin> fst ` set ?ps2"
    by (auto dest!: set_zip_leftD)
  from ag split have "add_grads S (?ps1 @ (t, gs ! p) # ?ps2) = Inr S'" by simp
  from add_grads_once [OF this n1 n2 t] ob show ?thesis by blast
qed

lemma upt_split3:
  assumes "n \<le> r"
  shows "rev [0..<Suc r] = rev [Suc n..<Suc r] @ n # rev [0..<n]"
proof -
  from assms have "[0..<Suc r] = [0..<n] @ [n..<Suc r]"
    by (metis le_Suc_eq le_add_diff_inverse upt_add_eq_append zero_le)
  moreover from assms have "[n..<Suc r] = n # [Suc n..<Suc r]"
    by (simp add: upt_conv_Cons)
  ultimately show ?thesis by simp
qed

lemma upt_split_mid:
  assumes "n1 < n2"
  shows "rev [0..<n2] = rev [Suc n1..<n2] @ n1 # rev [0..<n1]"
proof -
  from assms have "[0..<n2] = [0..<n1] @ [n1..<n2]"
    by (metis le_add_diff_inverse less_imp_le upt_add_eq_append zero_le)
  moreover from assms have "[n1..<n2] = n1 # [Suc n1..<n2]"
    by (simp add: upt_conv_Cons)
  ultimately show ?thesis by simp
qed

section \<open>Gradient accumulation is additive\<close>

text \<open>
  Claim C4. During the backward traversal the contribution of an operation node is added
  into the accumulators of its inputs and never overwrites them. Let a leaf \<open>t\<close> that
  tracks gradients be an input of exactly two nodes \<open>n1 < n2\<close> below the root (once in
  each, at positions \<open>p1\<close> and \<open>p2\<close>), both reached by the traversal, with gradients
  \<open>g1\<close> and \<open>g2\<close> accumulated at their outputs. Then the backward functions of both
  nodes succeed, and the accumulator of \<open>t\<close> ends as its old content plus the
  contribution of \<open>n2\<close> plus the contribution of \<open>n1\<close>; from an unset accumulator it
  is the sum of the two per-path gradients, which have one shape.
\<close>

theorem gradient_accumulation_additive:
  assumes bw: "backward S r = Inr S'"
    and leaf_t: "grad_fn (S ! t) = None" "requires_grad (S ! t)"
    and c1: "grad_fn (S ! n1) = Some nd1" "p1 < length (inputs nd1)"
            "\<forall>k<length (inputs nd1). (inputs nd1 ! k = t) = (k = p1)"
    and c2: "grad_fn (S ! n2) = Some nd2" "p2 < length (inputs nd2)"
            "\<forall>k<length (inputs nd2). (inputs nd2 ! k = t) = (k = p2)"
    and ord: "n1 < n2" "n2 \<le> r"
    and others: "\<forall>i\<le>r. i \<noteq> n1 \<longrightarrow> i \<noteq> n2 \<longrightarrow>
                   (\<forall>nd. grad_fn (S ! i) = Some nd \<longrightarrow> t \<notin> set (inputs nd))"
    and reach: "grad (S' ! n1) = Some g1" "grad (S' ! n2) = Some g2"
  shows "\<exists>gs1 gs2 a a'.
           op_backward (op nd1) (map (\<lambda>j. data (S ! j)) (inputs nd1)) g1 = Inr gs1 \<and>
           op_backward (op nd2) (map (\<lambda>j. data (S ! j)) (inputs nd2)) g2 = Inr gs2 \<and>
           accumulate (grad (S ! t)) (gs2 ! p2) = Inr a \<and>
           accumulate (Some a) (gs1 ! p1) = Inr a' \<and>
           grad (S' ! t) = Some a' \<and>
           (grad (S ! t) = None \<longrightarrow>
              shape (gs2 ! p2) = shape (gs1 ! p1) \<and> a' = add_elems (gs2 ! p2) (gs1 ! p1))"
proof -
  let ?S0 = "S[r := (S ! r)\<lparr>grad := Some one_scalar\<rparr>]"
  let ?hi = "rev [Suc n2..<Suc r]" and ?mid = "rev [Suc n1..<n2]" and ?lo = "rev [0..<n1]"
  from bw have r: "r < length S" and va: "visit_all ?S0 (rev [0..<Suc r]) = Inr S'"
    by (auto simp: backward_def split: if_splits)
  have order: "rev [0..<Suc r] = ?hi @ (n2 # ?mid) @ (n1 # ?lo)"
    using upt_split3 [OF ord(2)] upt_split_mid [OF ord(1)] by simp
  from va obtain A A' B B' where
    hi: "visit_all ?S0 ?hi = Inr A" and v2: "visit A n2 = Inr A'" and
    mid: "visit_all A' ?mid = Inr B" and v1: "visit B n1 = Inr B'" and
    lo: "visit_all B' ?lo = Inr S'"
    unfolding order by (auto simp: visit_all_append bindE_eq_Inr)
  have sg0: "same_graph S ?S0" by (rule same_graph_set_grad)
  from sg0 visit_all_same_graph [OF hi] have sgA: "same_graph S A" by (rule same_graph_trans)
  from sgA visit_same_graph [OF v2] have sgA': "same_graph S A'" by (rule same_graph_trans)
  from sgA' visit_all_same_graph [OF mid] have sgB: "same_graph S B" by (rule same_graph_trans)
  from sgB visit_same_graph [OF v1] have sgB': "same_graph S B'" by (rule same_graph_trans)
  \<comment> \<open>the gradient at the output of a consumer is final when the consumer is visited\<close>
  have "visit_all A (n2 # ?mid @ n1 # ?lo) = Inr S'"
    using v2 mid v1 lo by (simp add: visit_all_append)
  moreover from ord(1) have "\<forall>i\<in>set (n2 # ?mid @ n1 # ?lo). i \<le> n2" by auto
  ultimately have "S' ! n2 = A ! n2" by (rule visit_all_above)
  with reach(2) have gA: "grad (A ! n2) = Some g2" by simp
  have "visit_all B (n1 # ?lo) = Inr S'" using v1 lo by simp
  moreover have "\<forall>i\<in>set (n1 # ?lo). i \<le> n1" by auto
  ultimately have "S' ! n1 = B ! n1" by (rule visit_all_above)
  with reach(1) have gB: "grad (B ! n1) = Some g1" by simp
  from sgA c2(1) have fnA: "grad_fn (A ! n2) = Some nd2" by (simp add: same_graph_def)
  from sgB c1(1) have fnB: "grad_fn (B ! n1) = Some nd1" by (simp add: same_graph_def)
  \<comment> \<open>the shared tensor was created before its consumers\<close>
  from c2(2,3) have "t \<in> set (inputs nd2)" by (auto simp: in_set_conv_nth)
  from visit_inputs_below [OF v2 fnA gA this] have t2: "t < n2" .
  with ord(2) r have tr: "t \<noteq> r" and tlen: "t < length S" by simp_all
  \<comment> \<open>only the two consumers touch its accumulator\<close>
  from tr have "?S0 ! t = S ! t" by simp
  moreover have "A ! t = ?S0 ! t"
  proof (rule visit_all_not_input [OF hi], intro ballI allI impI)
    fix i nd assume i: "i \<in> set ?hi" and "grad_fn (?S0 ! i) = Some nd"
    with sg0 have "grad_fn (S ! i) = Some nd" by (simp add: same_graph_def)
    moreover from i ord(1) have "i \<le> r" "i \<noteq> n1" "i \<noteq> n2" by auto
    ultimately show "t \<notin> set (inputs nd)" using others by blast
  qed
  ultimately have At: "A ! t = S ! t" by simp
  have Bt: "B ! t = A' ! t"
  proof (rule visit_all_not_input [OF mid], intro ballI allI impI)
    fix i nd assume i: "i \<in> set ?mid" and "grad_fn (A' ! i) = Some nd"
    with sgA' have "grad_fn (S ! i) = Some nd" by (simp add: same_graph_def)
    moreover from i ord(2) have "i \<le> r" "i \<noteq> n1" "i \<noteq> n2" by auto
    ultimately show "t \<notin> set (inputs nd)" using others by blast
  qed
  have St: "S' ! t = B' ! t"
  proof (rule visit_all_not_input [OF lo], intro ballI allI impI)
    fix i nd assume i: "i \<in> set ?lo" and "grad_fn (B' ! i) = Some nd"
    with sgB' have "grad_fn (S ! i) = Some nd" by (simp add: same_graph_def)
    moreover from i ord have "i \<le> r" "i \<noteq> n1" "i \<noteq> n2" by auto
    ultimately show "t \<notin> set (inputs nd)" using others by blast
  qed
  \<comment> \<open>the two visits add their contributions\<close>
  from sgA tlen leaf_t(2) have tA: "t < length A" "requires_grad (A ! t)"
    by (simp_all add: same_graph_def)
  from visit_input_once [OF v2 fnA gA c2(2,3) tA] obtain gs2 a where
    ob2: "op_backward (op nd2) (map (\<lambda>j. data (A ! j)) (inputs nd2)) g2 = Inr gs2" and
    acc2: "accumulate (grad (A ! t)) (gs2 ! p2) = Inr a" and gA': "grad (A' ! t) = Some a"
    by blast
  from sgB tlen leaf_t(2) have tB: "t < length B" "requires_grad (B ! t)"
    by (simp_all add: same_graph_def)
  from visit_input_once [OF v1 fnB gB c1(2,3) tB] obtain gs1 a' where
    ob1: "op_backward (op nd1) (map (\<lambda>j. data (B ! j)) (inputs nd1)) g1 = Inr gs1" and
    acc1: "accumulate (grad (B ! t)) (gs1 ! p1) = Inr a'" and gB': "grad (B' ! t) = Some a'"
    by blast
  from sgA have dA: "(\<lambda>j. data (A ! j)) = (\<lambda>j. data (S ! j))" by (simp add: same_graph_def)
  from sgB have dB: "(\<lambda>j. data (B ! j)) = (\<lambda>j. data (S ! j))" by (simp add: same_graph_def)
  from ob2 dA have r2: "op_backward (op nd2) (map (\<lambda>j. data (S ! j)) (inputs nd2)) g2 = Inr gs2"
    by simp
  from ob1 dB have r1: "op_backward (op nd1) (map (\<lambda>j. data (S ! j)) (inputs nd1)) g1 = Inr gs1"
    by simp
  from acc2 At have s2: "accumulate (grad (S ! t)) (gs2 ! p2) = Inr a" by simp
  from acc1 Bt gA' have s1: "accumulate (Some a) (gs1 ! p1) = Inr a'" by simp
  from St gB' have fin: "grad (S' ! t) = Some a'" by simp
  have unset: "shape (gs2 ! p2) = shape (gs1 ! p1) \<and> a' = add_elems (gs2 ! p2) (gs1 ! p1)"
    if "grad (S ! t) = None"
  proof -
    from s2 that have "a = gs2 ! p2" by (simp add: accumulate_def)
    with s1 show ?thesis by (auto simp: accumulate_def add_t_def split: if_splits)
  qed
  show ?thesis
    by (rule exI [of _ gs1], rule exI [of _ gs2], rule exI [of _ a], rule exI [of _ a'])
       (use r1 r2 s2 s1 fin unset in simp)
qed

lemma le4: "i \<le> (4::nat) \<longleftrightarrow> i = 0 \<or> i = 1 \<or> i = 2 \<or> i = 3 \<or> i = 4"
  by auto

theorem gradient_accumulation_additive_witness:
  "\<exists>S S' gs1 gs2.
     two_consumers \<lparr>shape = [2], elems = [1, - 2]\<rparr> = Inr (S, 4) \<and>
     backward S 4 = Inr S' \<and>
     op_backward ClampOp [\<lparr>shape = [2], elems = [1, - 2]\<rparr>] \<lparr>shape = [2], elems = [1, 1]\<rparr> = Inr gs1 \<and>
     op_backward (PowOp 2) [\<lparr>shape = [2], elems = [1, - 2]\<rparr>] \<lparr>shape = [2], elems = [- 1, - 1]\<rparr> = Inr gs2 \<and>
     gs1 ! 0 = \<lparr>shape = [2], elems = [1, 0]\<rparr> \<and>
     gs2 ! 0 = \<lparr>shape = [2], elems = [- 2, 4]\<rparr> \<and>
     grad (S' ! 0) = Some (add_elems (gs2 ! 0) (gs1 ! 0)) \<and>
     grad (S' ! 0) = Some \<lparr>shape = [2], elems = [- 1, 4]\<rparr>"
proof -
  let ?w = "\<lparr>shape = [2], elems = [1, - 2]\<rparr>"
  let ?n1 = "\<lparr>op = ClampOp, inputs = [0]\<rparr>" and ?n2 = "\<lparr>op = PowOp 2, inputs = [0]\<rparr>"
  let ?S = "[leaf ?w True,
     \<lparr>data = \<lparr>shape = [2], elems = [1, 0]\<rparr>, requires_grad = True, grad = None, grad_fn = Some ?n1\<rparr>,
     \<lparr>data = \<lparr>shape = [2], elems = [1, 4]\<rparr>, requires_grad = True, grad = None, grad_fn = Some ?n2\<rparr>,
     \<lparr>data = \<lparr>shape = [2], elems = [0, - 4]\<rparr>, requires_grad = True, grad = None,
        grad_fn = Some \<lparr>op = SubOp, inputs = [1, 2]\<rparr>\<rparr>,
     \<lparr>data = \<lparr>shape = [], elems = [- 4]\<rparr>, requires_grad = True, grad = None,
        grad_fn = Some \<lparr>op = SumOp, inputs = [3]\<rparr>\<rparr>]"
  let ?g1 = "\<lparr>shape = [2], elems = [1, 1]\<rparr>" and ?g2 = "\<lparr>shape = [2], elems = [- 1, - 1]\<rparr>"
  let ?S' = "[\<lparr>data = ?w, requires_grad = True, grad = Some \<lparr>shape = [2], elems = [- 1, 4]\<rparr>, grad_fn = None\<rparr>,
     \<lparr>data = \<lparr>shape = [2], elems = [1, 0]\<rparr>, requires_grad = True, grad = Some ?g1, grad_fn = Some ?n1\<rparr>,
     \<lparr>data = \<lparr>shape = [2], elems = [1, 4]\<rparr>, requires_grad = True, grad = Some ?g2, grad_fn = Some ?n2\<rparr>,
     \<lparr>data = \<lparr>shape = [2], elems = [0, - 4]\<rparr>, requires_grad = True, grad = Some \<lparr>shape = [2], elems = [1, 1]\<rparr>,
        grad_fn = Some \<lparr>op = SubOp, inputs = [1, 2]\<rparr>\<rparr>,
     \<lparr>data = \<lparr>shape = [], elems = [- 4]\<rparr>, requires_grad = True, grad = Some \<lparr>shape = [], elems = [1]\<rparr>,
        grad_fn = Some \<lparr>op = SumOp, inputs = [3]\<rparr>\<rparr>]"
  have build: "two_consumers ?w = Inr (?S, 4)" by code_simp
  have bw: "backward ?S 4 = Inr ?S'" by code_simp
  have leaf_t: "grad_fn (?S ! 0) = None" "requires_grad (?S ! 0)" by (simp_all add: leaf_def)
  have c1: "grad_fn (?S ! 1) = Some ?n1" "0 < length (inputs ?n1)"
    "\<forall>k<length (inputs ?n1). (inputs ?n1 ! k = 0) = (k = 0)" by simp_all
  have c2: "grad_fn (?S ! 2) = Some ?n2" "0 < length (inputs ?n2)"
    "\<forall>k<length (inputs ?n2). (inputs ?n2 ! k = 0) = (k = 0)" by simp_all
  have ord: "(1::nat) < 2" "(2::nat) \<le> 4" by simp_all
  have others: "\<forall>i\<le>4. i \<noteq> 1 \<longrightarrow> i \<noteq> 2 \<longrightarrow>
                   (\<forall>nd. grad_fn (?S ! i) = Some nd \<longrightarrow> 0 \<notin> set (inputs nd))"
    by (auto simp: le4 leaf_def)
  have reach: "grad (?S' ! 1) = Some ?g1" "grad (?S' ! 2) = Some ?g2" by simp_all
  from gradient_accumulation_additive [OF bw leaf_t c1 c2 ord others reach]
  obtain gs1 gs2 a a' where
    b1: "op_backward (op ?n1) (map (\<lambda>j. data (?S ! j)) (inputs ?n1)) ?g1 = Inr gs1" and
    b2: "op_backward (op ?n2) (map (\<lambda>j. data (?S ! j)) (inputs ?n2)) ?g2 = Inr gs2" and
    fin: "grad (?S' ! 0) = Some a'" and
    un: "grad (?S ! 0) = None \<longrightarrow> shape (gs2 ! 0) = shape (gs1 ! 0) \<and> a' = add_elems (gs2 ! 0) (gs1 ! 0)"
    by (elim exE conjE) (rule that)
  from b1 have e1: "op_backward ClampOp [?w] ?g1 = Inr gs1" by (simp add: leaf_def)
  from b2 have e2: "op_backward (PowOp 2) [?w] ?g2 = Inr gs2" by (simp add: leaf_def)
  from e1 have v1: "gs1 ! 0 = \<lparr>shape = [2], elems = [1, 0]\<rparr>"
    by (auto simp: setitem_lt0_def clone_def)
  from e2 have v2: "gs2 ! 0 = \<lparr>shape = [2], elems = [- 2, 4]\<rparr>"
    by (auto simp: mul_t_def smul_def pow_t_def)
  from un fin have s: "grad (?S' ! 0) = Some (add_elems (gs2 ! 0) (gs1 ! 0))"
    by (simp add: leaf_def)
  have f: "grad (?S' ! 0) = Some \<lparr>shape = [2], elems = [- 1, 4]\<rparr>" by simp
  show ?thesis
    by (rule exI [of _ ?S], rule exI [of _ ?S'], rule exI [of _ gs1], rule exI [of _ gs2])
       (use build bw e1 e2 v1 v2 s f in blast)
qed

section \<open>The update step and the reset of the accumulators\<close>

lemma apply_op_eq_Inr:
  "apply_op ge k ins S = Inr (S1, i) \<longleftrightarrow>
     \<not> (\<exists>j\<in>set ins. length S \<le> j) \<and> i = length S \<and>
     (\<exists>v. op_forward k (map (\<lambda>j. data (S ! j)) ins) = Inr v \<and>
        S1 = S @ [\<lparr>data = v, requires_grad = (ge \<and> (\<exists>j\<in>set ins. requires_grad (S ! j))),
                   grad = None,
                   grad_fn = (if ge \<and> (\<exists>j\<in>set ins. requires_grad (S ! j))
                              then Some \<lparr>op = k, inputs = ins\<rparr> else None)\<rparr>])"
  by (auto simp: apply_op_def Let_def bindE_eq_Inr)

lemma map_update_same: "(map f S)[j := f (S ! j)] = map f S"
  by (cases "j < length S") (auto simp: list_eq_iff_nth_eq nth_list_update list_update_beyond)

lemma get_grad_eq_Inr: "get_grad S j = Inr g \<longleftrightarrow> j < length S \<and> grad (S ! j) = Some g"
  by (auto simp: get_grad_def split: option.splits)

lemma isub_eq_Inr:
  "isub ge j v S = Inr S' \<longleftrightarrow>
     j < length S \<and> \<not> (ge \<and> requires_grad (S ! j)) \<and>
     (\<exists>d. sub_t (data (S ! j)) v = Inr d \<and> S' = S[j := (S ! j)\<lparr>data := d\<rparr>])"
  by (auto simp: isub_def bindE_eq_Inr)

lemma sgd_update_eq_Inr:
  "sgd_update ge lr S = Inr S' \<longleftrightarrow>
     3 < length S \<and> \<not> (ge \<and> requires_grad (S ! 2)) \<and> \<not> (ge \<and> requires_grad (S ! 3)) \<and>
     (\<exists>g1 g2 d1 d2. grad (S ! 2) = Some g1 \<and> grad (S ! 3) = Some g2 \<and>
        sub_t (data (S ! 2)) (smul lr g1) = Inr d1 \<and>
        sub_t (data (S ! 3)) (smul lr g2) = Inr d2 \<and>
        S' = S[2 := (S ! 2)\<lparr>data := d1\<rparr>, 3 := (S ! 3)\<lparr>data := d2\<rparr>])"
  by (auto simp: sgd_update_def bindE_eq_Inr get_grad_eq_Inr isub_eq_Inr)

text \<open>
  Claim C7. The update \<^verbatim>\<open>w1 -= learning_rate * w1.grad; w2 -= learning_rate * w2.grad\<close>
  stands under \<^verbatim>\<open>with torch.no_grad():\<close>, so it runs with recording off. Whenever it
  returns, the store has as many tensors as before (no tensor was derived), every
  tensor has the creating node, the tracking flag and the accumulator it had, every
  tensor other than the two weights is unchanged, and each weight's value is its old
  value minus \<open>lr\<close> times its gradient. It does return when both accumulators are set
  and have the shapes of their weights.
\<close>

theorem sgd_update_no_graph_change:
  "(\<forall>S'. sgd_update False lr S = Inr S' \<longrightarrow>
      length S' = length S \<and>
      map grad_fn S' = map grad_fn S \<and>
      map requires_grad S' = map requires_grad S \<and>
      map grad S' = map grad S \<and>
      (\<forall>j. j \<noteq> 2 \<and> j \<noteq> 3 \<longrightarrow> S' ! j = S ! j) \<and>
      (\<exists>g1 g2. grad (S ! 2) = Some g1 \<and> grad (S ! 3) = Some g2 \<and>
         sub_t (data (S ! 2)) (smul lr g1) = Inr (data (S' ! 2)) \<and>
         sub_t (data (S ! 3)) (smul lr g2) = Inr (data (S' ! 3)))) \<and>
   (\<forall>g1 g2. 3 < length S \<and> grad (S ! 2) = Some g1 \<and> grad (S ! 3) = Some g2 \<and>
      shape g1 = shape (data (S ! 2)) \<and> shape g2 = shape (data (S ! 3)) \<longrightarrow>
      (\<exists>S'. sgd_update False lr S = Inr S'))"
proof (intro conjI allI impI)
  fix S' assume "sgd_update False lr S = Inr S'"
  then obtain g1 g2 d1 d2 where
    len: "3 < length S" and g: "grad (S ! 2) = Some g1" "grad (S ! 3) = Some g2" and
    d: "sub_t (data (S ! 2)) (smul lr g1) = Inr d1" "sub_t (data (S ! 3)) (smul lr g2) = Inr d2" and
    S': "S' = S[2 := (S ! 2)\<lparr>data := d1\<rparr>, 3 := (S ! 3)\<lparr>data := d2\<rparr>]"
    by (auto simp: sgd_update_eq_Inr)
  show "length S' = length S" by (simp add: S')
  show "map grad_fn S' = map grad_fn S"
    by (simp add: S' map_update map_update_same)
  show "map requires_grad S' = map requires_grad S"
    by (simp add: S' map_update map_update_same)
  show "map grad S' = map grad S"
    by (simp add: S' map_update map_update_same)
  show "\<exists>g1 g2. grad (S ! 2) = Some g1 \<and> grad (S ! 3) = Some g2 \<and>
         sub_t (data (S ! 2)) (smul lr g1) = Inr (data (S' ! 2)) \<and>
         sub_t (data (S ! 3)) (smul lr g2) = Inr (data (S' ! 3))"
    using len g d by (simp add: S')
  fix j :: nat assume "j \<noteq> 2 \<and> j \<noteq> 3"
  then show "S' ! j = S ! j" by (simp add: S')
next
  fix g1 g2
  assume "3 < length S \<and> grad (S ! 2) = Some g1 \<and> grad (S ! 3) = Some g2 \<and>
      shape g1 = shape (data (S ! 2)) \<and> shape g2 = shape (data (S ! 3))"
  then show "\<exists>S'. sgd_update False lr S = Inr S'"
    by (simp add: sgd_update_eq_Inr sub_t_def)
qed

theorem sgd_update_no_graph_change_witness:
  "sgd_update False (1 / 2)
     [leaf \<lparr>shape = [1, 1], elems = [1]\<rparr> False, leaf \<lparr>shape = [1, 1], elems = [2]\<rparr> False,
      \<lparr>data = \<lparr>shape = [1, 1], elems = [3]\<rparr>, requires_grad = True,
         grad = Some \<lparr>shape = [1, 1], elems = [4]\<rparr>, grad_fn = None\<rparr>,
      \<lparr>data = \<lparr>shape = [1, 1], elems = [5]\<rparr>, requires_grad = True,
         grad = Some \<lparr>shape = [1, 1], elems = [- 6]\<rparr>, grad_fn = None\<rparr>]
   = Inr
     [leaf \<lparr>shape = [1, 1], elems = [1]\<rparr> False, leaf \<lparr>shape = [1, 1], elems = [2]\<rparr> False,
      \<lparr>data = \<lparr>shape = [1, 1], elems = [1]\<rparr>, requires_grad = True,
         grad = Some \<lparr>shape = [1, 1], elems = [4]\<rparr>, grad_fn = None\<rparr>,
      \<lparr>data = \<lparr>shape = [1, 1], elems = [8]\<rparr>, requires_grad = True,
         grad = Some \<lparr>shape = [1, 1], elems = [- 6]\<rparr>, grad_fn = None\<rparr>]"
proof -
  let ?S = "[leaf \<lparr>shape = [1, 1], elems = [1]\<rparr> False, leaf \<lparr>shape = [1, 1], elems = [2]\<rparr> False,
      \<lparr>data = \<lparr>shape = [1, 1], elems = [3]\<rparr>, requires_grad = True,
         grad = Some \<lparr>shape = [1, 1], elems = [4]\<rparr>, grad_fn = None\<rparr>,
      \<lparr>data = \<lparr>shape = [1, 1], elems = [5]\<rparr>, requires_grad = True,
         grad = Some \<lparr>shape = [1, 1], elems = [- 6]\<rparr>, grad_fn = None\<rparr>]"
  let ?g1 = "\<lparr>shape = [1, 1], elems = [4]\<rparr>" and ?g2 = "\<lparr>shape = [1, 1], elems = [- 6]\<rparr>"
  have "3 < length ?S \<and> grad (?S ! 2) = Some ?g1 \<and> grad (?S ! 3) = Some ?g2 \<and>
      shape ?g1 = shape (data (?S ! 2)) \<and> shape ?g2 = shape (data (?S ! 3))"
    by simp
  with sgd_update_no_graph_change [of "1 / 2" ?S]
  obtain S' where run: "sgd_update False (1 / 2) ?S = Inr S'" by blast
  with sgd_update_no_graph_change [of "1 / 2" ?S]
  have len: "length S' = length ?S"
    and other: "\<forall>j. j \<noteq> 2 \<and> j \<noteq> 3 \<longrightarrow> S' ! j = ?S ! j"
    and fn: "map grad_fn S' = map grad_fn ?S" and rg: "map requires_grad S' = map requires_grad ?S"
    and gr: "map grad S' = map grad ?S"
    and dat: "\<exists>g1 g2. grad (?S ! 2) = Some g1 \<and> grad (?S ! 3) = Some g2 \<and>
         sub_t (data (?S ! 2)) (smul (1 / 2) g1) = Inr (data (S' ! 2)) \<and>
         sub_t (data (?S ! 3)) (smul (1 / 2) g2) = Inr (data (S' ! 3))"
    by blast+
  from run show ?thesis by (simp add: sgd_update_eq_Inr sub_t_def)
qed

lemma grad_zero_eq_Inr:
  "grad_zero j S = Inr S' \<longleftrightarrow>
     j < length S \<and> (\<exists>g. grad (S ! j) = Some g \<and> S' = S[j := (S ! j)\<lparr>grad := Some (zero_t g)\<rparr>])"
  by (auto simp: grad_zero_def bindE_eq_Inr get_grad_eq_Inr)

lemma zero_t_all_zero: "v \<in> set (elems (zero_t g)) \<Longrightarrow> v = 0"
  by auto

lemma no_grad_block_zeroes:
  assumes "no_grad_block lr S = Inr S'"
  shows "3 < length S' \<and> length S' = length S \<and>
         (\<exists>g1 g2. grad (S ! 2) = Some g1 \<and> grad (S ! 3) = Some g2 \<and>
            grad (S' ! 2) = Some (zero_t g1) \<and> grad (S' ! 3) = Some (zero_t g2))"
proof -
  from assms obtain A B where u: "sgd_update False lr S = Inr A"
    and z2: "grad_zero 2 A = Inr B" and z3: "grad_zero 3 B = Inr S'"
    by (auto simp: no_grad_block_def bindE_eq_Inr)
  from u obtain d1 d2 where len: "3 < length S"
    and A: "A = S[2 := (S ! 2)\<lparr>data := d1\<rparr>, 3 := (S ! 3)\<lparr>data := d2\<rparr>]"
    by (auto simp: sgd_update_eq_Inr)
  from z2 obtain g1 where g1: "grad (A ! 2) = Some g1"
    and B: "B = A[2 := (A ! 2)\<lparr>grad := Some (zero_t g1)\<rparr>]"
    by (auto simp: grad_zero_eq_Inr)
  from z3 obtain g2 where g2: "grad (B ! 3) = Some g2"
    and S': "S' = B[3 := (B ! 3)\<lparr>grad := Some (zero_t g2)\<rparr>]"
    by (auto simp: grad_zero_eq_Inr)
  from len g1 have "grad (S ! 2) = Some g1" by (simp add: A)
  moreover from len g2 have "grad (S ! 3) = Some g2" by (simp add: A B)
  moreover from len have "grad (S' ! 2) = Some (zero_t g1)" by (simp add: S' B A)
  moreover from len have "grad (S' ! 3) = Some (zero_t g2)" by (simp add: S' B A)
  moreover from len have "3 < length S'" "length S' = length S" by (simp_all add: S' B A)
  ultimately show ?thesis by blast
qed

lemma sum_squared_error_extends:
  assumes "sum_squared_error a b S = Inr (S1, i)" and "j < length S"
  shows "S1 ! j = S ! j"
  using assms
  by (auto simp: sum_squared_error_def bindE_eq_Inr apply_op_eq_Inr nth_append)

lemma autograd_forward_extends:
  assumes "autograd_forward relu S = Inr (S1, i)" and "j < length S"
  shows "S1 ! j = S ! j"
proof -
  from assms(1) obtain A a B b C c where
    1: "apply_op True MmOp [0, 2] S = Inr (A, a)" and
    2: "apply_op True relu [a] A = Inr (B, b)" and
    3: "apply_op True MmOp [b, 3] B = Inr (C, c)" and
    4: "sum_squared_error c 1 C = Inr (S1, i)"
    by (auto simp: autograd_forward_def bindE_eq_Inr)
  from 1 assms(2) have jA: "j < length A" "A ! j = S ! j"
    by (auto simp: apply_op_eq_Inr nth_append)
  from 2 jA have jB: "j < length B" "B ! j = S ! j"
    by (auto simp: apply_op_eq_Inr nth_append)
  from 3 jB have jC: "j < length C" "C ! j = S ! j"
    by (auto simp: apply_op_eq_Inr nth_append)
  from sum_squared_error_extends [OF 4 jC(1)] jC(2) show ?thesis by simp
qed

lemma autograd_iter_zeroes:
  assumes "autograd_iter bw relu lr S = Inr (printed, S')"
  shows "length S' = 4 \<and>
         (\<exists>z1 z2. grad (S' ! 2) = Some z1 \<and> (\<forall>v\<in>set (elems z1). v = 0) \<and>
                  grad (S' ! 3) = Some z2 \<and> (\<forall>v\<in>set (elems z2). v = 0))"
proof -
  from assms obtain S3 where ng: "\<exists>S2. no_grad_block lr S2 = Inr S3" and S': "S' = take 4 S3"
    by (auto simp: autograd_iter_def bindE_eq_Inr)
  from ng no_grad_block_zeroes obtain g1 g2 where len: "3 < length S3"
    and z: "grad (S3 ! 2) = Some (zero_t g1)" "grad (S3 ! 3) = Some (zero_t g2)"
    by blast
  from len S' have "length S' = 4" by simp
  moreover from z S' have "grad (S' ! 2) = Some (zero_t g1)" "grad (S' ! 3) = Some (zero_t g2)"
    by simp_all
  ultimately show ?thesis using zero_t_all_zero by blast
qed

lemma autograd_loop_last:
  "autograd_loop T bw relu lr S = Inr (ls, S') \<Longrightarrow> 0 < T \<Longrightarrow>
   \<exists>S0 printed. autograd_iter bw relu lr S0 = Inr (printed, S')"
proof (induction T arbitrary: S ls)
  case 0
  then show ?case by simp
next
  case (Suc T)
  from Suc.prems(1) obtain p S1 rest where
    it: "autograd_iter bw relu lr S = Inr (p, S1)" and
    lp: "autograd_loop T bw relu lr S1 = Inr (rest, S')"
    by (auto simp: bindE_eq_Inr split: prod.splits)
  show ?case
  proof (cases T)
    case 0
    with lp have "S' = S1" by simp
    with it show ?thesis by blast
  next
    case (Suc T')
    with Suc.IH [OF lp] show ?thesis by simp
  qed
qed

text \<open>
  Claim C6. After every iteration of the training loop (so after each parameter update and
  before the next forward pass) the gradient accumulator of each weight is set and
  every entry of it is exactly zero, whatever the backward traversal \<open>bw\<close> stored
  there; and the next forward pass leaves the two accumulators as they are, so the
  next backward traversal starts from zero. The operator between the two products
  is arbitrary, so this covers both scripts.
\<close>

theorem grads_reset_before_next_forward:
  assumes "autograd_loop T bw relu lr S = Inr (printed, S')" and "0 < T"
  shows "length S' = 4 \<and>
         (\<exists>z1 z2. grad (S' ! 2) = Some z1 \<and> (\<forall>v\<in>set (elems z1). v = 0) \<and>
                  grad (S' ! 3) = Some z2 \<and> (\<forall>v\<in>set (elems z2). v = 0) \<and>
                  (\<forall>S1 loss. autograd_forward relu S' = Inr (S1, loss) \<longrightarrow>
                     grad (S1 ! 2) = Some z1 \<and> grad (S1 ! 3) = Some z2))"
proof -
  from autograd_loop_last [OF assms] obtain S0 p where
    "autograd_iter bw relu lr S0 = Inr (p, S')" by blast
  from autograd_iter_zeroes [OF this] obtain z1 z2 where
    len: "length S' = 4" and
    z: "grad (S' ! 2) = Some z1" "\<forall>v\<in>set (elems z1). v = 0"
       "grad (S' ! 3) = Some z2" "\<forall>v\<in>set (elems z2). v = 0"
    by blast
  have "grad (S1 ! 2) = Some z1 \<and> grad (S1 ! 3) = Some z2"
    if "autograd_forward relu S' = Inr (S1, loss)" for S1 loss
    using autograd_forward_extends [OF that, of 2] autograd_forward_extends [OF that, of 3] len z
    by simp
  with len z show ?thesis by blast
qed

theorem grads_reset_before_next_forward_witness:
  "autograd_loop 2 backward ClampOp (1 / 10)
     (init_store \<lparr>shape = [1, 2], elems = [1, 2]\<rparr> \<lparr>shape = [1, 1], elems = [1]\<rparr>
        \<lparr>shape = [2, 2], elems = [1, 0, - 1, 1]\<rparr> \<lparr>shape = [2, 1], elems = [1, 1]\<rparr>)
   = Inr ([1, 4 / 25],
       [leaf \<lparr>shape = [1, 2], elems = [1, 2]\<rparr> False, leaf \<lparr>shape = [1, 1], elems = [1]\<rparr> False,
        \<lparr>data = \<lparr>shape = [2, 2], elems = [1, - (19 / 125), - 1, 87 / 125]\<rparr>, requires_grad = True,
           grad = Some \<lparr>shape = [2, 2], elems = [0, 0, 0, 0]\<rparr>, grad_fn = None\<rparr>,
        \<lparr>data = \<lparr>shape = [2, 1], elems = [1, 17 / 25]\<rparr>, requires_grad = True,
           grad = Some \<lparr>shape = [2, 1], elems = [0, 0]\<rparr>, grad_fn = None\<rparr>])"
proof -
  let ?S = "init_store \<lparr>shape = [1, 2], elems = [1, 2]\<rparr> \<lparr>shape = [1, 1], elems = [1]\<rparr>
        \<lparr>shape = [2, 2], elems = [1, 0, - 1, 1]\<rparr> \<lparr>shape = [2, 1], elems = [1, 1]\<rparr>"
  let ?S' = "[leaf \<lparr>shape = [1, 2], elems = [1, 2]\<rparr> False, leaf \<lparr>shape = [1, 1], elems = [1]\<rparr> False,
        \<lparr>data = \<lparr>shape = [2, 2], elems = [1, - (19 / 125), - 1, 87 / 125]\<rparr>, requires_grad = True,
           grad = Some \<lparr>shape = [2, 2], elems = [0, 0, 0, 0]\<rparr>, grad_fn = None\<rparr>,
        \<lparr>data = \<lparr>shape = [2, 1], elems = [1, 17 / 25]\<rparr>, requires_grad = True,
           grad = Some \<lparr>shape = [2, 1], elems = [0, 0]\<rparr>, grad_fn = None\<rparr>]"
  have run: "autograd_loop 2 backward ClampOp (1 / 10) ?S = Inr ([1, 4 / 25], ?S')"
    by code_simp
  have "(0::nat) < 2" by simp
  from grads_reset_before_next_forward [OF run this]
  have "length ?S' = 4" by blast
  with run show ?thesis by simp
qed

section \<open>The hand-written gradients are the partial derivatives of the loss\<close>




















section \<open>Running the engine on the networks of the notebook\<close>

lemma apply_op_Inr:
  "\<forall>j\<in>set ins. j < length S \<Longrightarrow> op_forward k (map (\<lambda>j. data (S ! j)) ins) = Inr v \<Longrightarrow>
   apply_op ge k ins S =
     Inr (S @ [\<lparr>data = v, requires_grad = (ge \<and> (\<exists>j\<in>set ins. requires_grad (S ! j))),
                grad = None,
                grad_fn = (if ge \<and> (\<exists>j\<in>set ins. requires_grad (S ! j))
                           then Some \<lparr>op = k, inputs = ins\<rparr> else None)\<rparr>],
          length S)"
  by (auto simp: apply_op_def Let_def)

lemma mm_value: "shape a = [n, k] \<Longrightarrow> shape b = [k, m] \<Longrightarrow> mm a b = Inr (mm_v a b)"
  by (simp add: mm_v_def mm_shapes)

lemma shape_mm_v: "shape a = [n, k] \<Longrightarrow> shape b = [k, m] \<Longrightarrow> shape (mm_v a b) = [n, m]"
  by (simp add: mm_v_def mm_shapes)

lemma t_value: "shape a = [n, m] \<Longrightarrow> t_mat a = Inr (t_v a)"
  by (simp add: t_v_def t_mat_shapes)

lemma shape_t_v: "shape a = [n, m] \<Longrightarrow> shape (t_v a) = [m, n]"
  by (simp add: t_v_def t_mat_shapes)

lemma linear_value:
  "shape x = [n, i] \<Longrightarrow> shape w = [k, i] \<Longrightarrow> shape b = [k] \<Longrightarrow>
   linear x w b = Inr (linear_v x w b)"
  by (simp add: linear_v_def linear_def t_mat_shapes mm_shapes add_bias_def)

lemma shape_linear_v:
  "shape x = [n, i] \<Longrightarrow> shape w = [k, i] \<Longrightarrow> shape b = [k] \<Longrightarrow>
   shape (linear_v x w b) = [n, k]"
  by (simp add: linear_v_def linear_def t_mat_shapes mm_shapes add_bias_def)

lemma sub_value: "shape a = shape b \<Longrightarrow> sub_t a b = Inr (sub_v a b)"
  by (simp add: sub_v_def sub_t_def)

lemma shape_sub_v: "shape a = shape b \<Longrightarrow> shape (sub_v a b) = shape a"
  by (simp add: sub_v_def sub_t_def)

lemma mask_value: "shape g = shape a \<Longrightarrow> setitem_lt0 g a = Inr (mask_v g a)"
  by (simp add: mask_v_def setitem_lt0_def)

lemma shape_mask_v: "shape g = shape a \<Longrightarrow> shape (mask_v g a) = shape g"
  by (simp add: mask_v_def setitem_lt0_def)

lemma mul_value: "shape a = shape b \<Longrightarrow> mul_t a b = Inr (mul_v a b)"
  by (simp add: mul_v_def mul_t_def)

lemma shape_mul_v: "shape a = shape b \<Longrightarrow> shape (mul_v a b) = shape a"
  by (simp add: mul_v_def mul_t_def)

lemma sum_rows_value: "shape g = [n, m] \<Longrightarrow> sum_rows g = Inr (sum_rows_v g)"
  by (simp add: sum_rows_v_def sum_rows_def)

lemma shape_sum_rows_v: "shape g = [n, m] \<Longrightarrow> shape (sum_rows_v g) = [m]"
  by (simp add: sum_rows_v_def sum_rows_def)

lemma shape_sum_t: "shape (sum_t a) = []"
  by (simp add: sum_t_def)

lemma shape_add_elems: "shape (add_elems a b) = shape a"
  by (simp add: add_elems_def)

lemmas shape_rules = shape_add_elems shape_mm_v shape_t_v shape_linear_v shape_sub_v
  shape_mask_v shape_mul_v shape_sum_rows_v shape_sum_t

lemmas value_rules = mm_value linear_value sub_value t_value mask_value mul_value sum_rows_value

lemmas engine_rules = sum_squared_error_def apply_op_Inr leaf_def backward_def one_scalar_def
  visit_def accumulate_def add_t_def clone_def








lemmas dynamic_rules = dynamic_grads_def DynamicNet_forward_def dynamic_net_def dynamic_store_def
  unrolled_grads_def unrolled_forward_def unrolled_store_def copy_module_def
  linear_call_def clamp_call_def

lemma le3: "k \<le> (3::nat) \<longleftrightarrow> k = 0 \<or> k = Suc 0 \<or> k = Suc (Suc 0) \<or> k = Suc (Suc (Suc 0))"
  by auto

text \<open>
  Claim C5. For every reuse count \<open>k\<close> from 0 to 3 and all tensors whose shapes fit, the
  forward pass of \<open>DynamicNet\<close> that applies the shared middle layer \<open>k\<close> times,
  followed by the loss and the backward traversal, succeeds, as does the unrolled
  network with \<open>k\<close> independent copies of the middle layer; the gradient accumulated in
  the shared weight (id 4) and in the shared bias (id 5) is the sum of the gradients
  of the \<open>k\<close> copies (unset for \<open>k = 0\<close>), each of which has the shape of the shared
  tensor; and the input and output layers receive the same gradients in both
  networks.
\<close>

theorem shared_weight_matches_unrolled:
  assumes "shape x = [n, d]" "shape y = [n, q]"
    "shape wi = [h, d]" "shape bi = [h]" "shape wm = [h, h]" "shape bm = [h]"
    "shape wo = [q, h]" "shape bo = [q]"
    and "k \<le> 3"
  shows "\<exists>S U. dynamic_grads k (dynamic_store x y (wi, bi) (wm, bm) (wo, bo)) = Inr S \<and>
           unrolled_grads k (unrolled_store k x y (wi, bi) (wm, bm) (wo, bo)) = Inr U \<and>
           grad (S ! 4) = sum_grads (map (\<lambda>i. grad (U ! (6 + 2 * i))) [0..<k]) \<and>
           grad (S ! 5) = sum_grads (map (\<lambda>i. grad (U ! (7 + 2 * i))) [0..<k]) \<and>
           (\<forall>i<k. \<exists>gw gb. grad (U ! (6 + 2 * i)) = Some gw \<and> shape gw = shape wm \<and>
                           grad (U ! (7 + 2 * i)) = Some gb \<and> shape gb = shape bm) \<and>
           grad (S ! 2) = grad (U ! 2) \<and> grad (S ! 3) = grad (U ! 3) \<and>
           grad (S ! 6) = grad (U ! 4) \<and> grad (S ! 7) = grad (U ! 5)"
proof -
  from assms(9) have "k = 0 \<or> k = Suc 0 \<or> k = Suc (Suc 0) \<or> k = Suc (Suc (Suc 0))"
    by (simp add: le3)
  then show ?thesis
  proof (elim disjE)
    assume "k = 0"
    with assms(1-8) show ?thesis
      by (simp add: engine_rules dynamic_rules shape_rules value_rules)
  next
    assume "k = Suc 0"
    with assms(1-8) show ?thesis
      by (simp add: engine_rules dynamic_rules shape_rules value_rules)
  next
    assume "k = Suc (Suc 0)"
    with assms(1-8) show ?thesis
      by (simp add: engine_rules dynamic_rules shape_rules value_rules less_Suc_eq)
  next
    assume "k = Suc (Suc (Suc 0))"
    with assms(1-8) show ?thesis
      by (simp add: engine_rules dynamic_rules shape_rules value_rules less_Suc_eq)
  qed
qed

theorem shared_weight_matches_unrolled_witness:
  "\<exists>S U.
     dynamic_grads 2 (dynamic_store \<lparr>shape = [1, 2], elems = [1, 2]\<rparr> \<lparr>shape = [1, 1], elems = [1]\<rparr>
        (\<lparr>shape = [2, 2], elems = [1, 0, - 1, 1]\<rparr>, \<lparr>shape = [2], elems = [1, - 1]\<rparr>)
        (\<lparr>shape = [2, 2], elems = [1, 2, - 1, 1]\<rparr>, \<lparr>shape = [2], elems = [1, - 1]\<rparr>)
        (\<lparr>shape = [1, 2], elems = [1, 1]\<rparr>, \<lparr>shape = [1], elems = [1 / 2]\<rparr>)) = Inr S \<and>
     unrolled_grads 2 (unrolled_store 2 \<lparr>shape = [1, 2], elems = [1, 2]\<rparr> \<lparr>shape = [1, 1], elems = [1]\<rparr>
        (\<lparr>shape = [2, 2], elems = [1, 0, - 1, 1]\<rparr>, \<lparr>shape = [2], elems = [1, - 1]\<rparr>)
        (\<lparr>shape = [2, 2], elems = [1, 2, - 1, 1]\<rparr>, \<lparr>shape = [2], elems = [1, - 1]\<rparr>)
        (\<lparr>shape = [1, 2], elems = [1, 1]\<rparr>, \<lparr>shape = [1], elems = [1 / 2]\<rparr>)) = Inr U \<and>
     grad (U ! 6) = Some \<lparr>shape = [2, 2], elems = [14, 0, 0, 0]\<rparr> \<and>
     grad (U ! 8) = Some \<lparr>shape = [2, 2], elems = [21, 0, 0, 0]\<rparr> \<and>
     grad (S ! 4) = Some \<lparr>shape = [2, 2], elems = [35, 0, 0, 0]\<rparr>"
proof -
  let ?x = "\<lparr>shape = [1, 2], elems = [1, 2]\<rparr>" and ?y = "\<lparr>shape = [1, 1], elems = [1]\<rparr>"
  let ?wi = "\<lparr>shape = [2, 2], elems = [1, 0, - 1, 1]\<rparr>" and ?bi = "\<lparr>shape = [2], elems = [1, - 1]\<rparr>"
  let ?wm = "\<lparr>shape = [2, 2], elems = [1, 2, - 1, 1]\<rparr>" and ?bm = "\<lparr>shape = [2], elems = [1, - 1]\<rparr>"
  let ?wo = "\<lparr>shape = [1, 2], elems = [1, 1]\<rparr>" and ?bo = "\<lparr>shape = [1], elems = [1 / 2]\<rparr>"
  let ?U0 = "unrolled_store 2 ?x ?y (?wi, ?bi) (?wm, ?bm) (?wo, ?bo)"
  have sh: "shape ?x = [1, 2]" "shape ?y = [1, 1]" "shape ?wi = [2, 2]" "shape ?bi = [2]"
    "shape ?wm = [2, 2]" "shape ?bm = [2]" "shape ?wo = [1, 2]" "shape ?bo = [1]" "(2::nat) \<le> 3"
    by simp_all
  from shared_weight_matches_unrolled [OF sh] obtain S U where
    S: "dynamic_grads 2 (dynamic_store ?x ?y (?wi, ?bi) (?wm, ?bm) (?wo, ?bo)) = Inr S" and
    U: "unrolled_grads 2 ?U0 = Inr U" and
    eq: "grad (S ! 4) = sum_grads (map (\<lambda>i. grad (U ! (6 + 2 * i))) [0..<2])"
    by blast
  have "map_sum id (\<lambda>U. (grad (U ! 6), grad (U ! 8))) (unrolled_grads 2 ?U0)
        = Inr (Some \<lparr>shape = [2, 2], elems = [14, 0, 0, 0]\<rparr>,
               Some \<lparr>shape = [2, 2], elems = [21, 0, 0, 0]\<rparr>)"
    by code_simp
  with U have c: "grad (U ! 6) = Some \<lparr>shape = [2, 2], elems = [14, 0, 0, 0]\<rparr>"
    "grad (U ! 8) = Some \<lparr>shape = [2, 2], elems = [21, 0, 0, 0]\<rparr>"
    by simp_all
  have "[0..<2] = [0, Suc 0]" by (simp add: upt_rec)
  with eq c have "grad (S ! 4) = Some \<lparr>shape = [2, 2], elems = [35, 0, 0, 0]\<rparr>"
    by (simp add: add_elems_def)
  with S U c show ?thesis by blast
qed

end
